theory Spec2Isabelle
  imports Complex_Main "HOL-Library.AList"
begin

section \<open>Data model\<close>

text \<open>
  Network addresses are the keys of the \<open>network\<close> and \<open>neighbors\<close> dictionaries;
  actor references are the values of \<open>network\<close> (the addresses the actor system sends to).
  Times, sizes, bandwidths and Q-values are Python numbers, read here as reals.
\<close>

type_synonym node_addr = nat

datatype actor_ref = ActorAddress nat

text \<open>The exceptions the router code can raise.\<close>

datatype error =
    RouterNotInitialized
  | KeyError
  | TypeError
  | ValueError
  | ZeroDivisionError
  | AttributeError
  | UnsupportedRewardMsg

text \<open>
  A Python call either returns or raises; the mutations made before a raise stay in
  place, so every operation yields an outcome together with the state it leaves.
\<close>

datatype 'a outcome = Returned 'a | Raised error

definition bind :: "('s \<Rightarrow> 'a outcome \<times> 's) \<Rightarrow> ('a \<Rightarrow> 's \<Rightarrow> 'b outcome \<times> 's) \<Rightarrow> 's \<Rightarrow> 'b outcome \<times> 's" where
  "bind m f s = (case m s of (Raised e, s') \<Rightarrow> (Raised e, s') | (Returned x, s') \<Rightarrow> f x s')"

text \<open>A dictionary is an association list in insertion order; \<open>d[k]\<close> raises KeyError.\<close>

definition getitem :: "('k \<times> 'v) list \<Rightarrow> 'k \<Rightarrow> 's \<Rightarrow> 'v outcome \<times> 's" where
  "getitem d k s = (case map_of d k of None \<Rightarrow> (Raised KeyError, s) | Some v \<Rightarrow> (Returned v, s))"

definition keys :: "('k \<times> 'v) list \<Rightarrow> 'k list" where
  "keys d = map fst d"

datatype cell = NumVal real | AddrVal "node_addr option" | IdVal nat

text \<open>
  Modelled from the spec: the Package class (module \<open>messages\<close>, not among the sources).
  A package has an id, a destination, a size and a route trace; \<open>route_add\<close> appends one
  trace record (the data and its column names).
\<close>

record package =
  pkg_id :: nat
  dst :: node_addr
  pkg_size :: real
  route :: "(cell list option \<times> string list option) list"

definition route_add :: "cell list option \<Rightarrow> string list option \<Rightarrow> package \<Rightarrow> package" where
  "route_add data cols pkg = pkg\<lparr>route := route pkg @ [(data, cols)]\<rparr>"

text \<open>
  Modelled from the spec: the event and message classes (module \<open>messages\<close>), with the
  fields the router reads and the constructor arguments it passes.
\<close>

datatype event =
    IncomingPkgEvent real actor_ref package
  | ProcessPkgEvent real actor_ref package
  | LinkBreakMsg node_addr
  | LinkRestoreMsg node_addr
  | OtherEvent

datatype service_msg =
    RewardMsg nat
  | SimpleRewardMsg nat real real node_addr
  | LinkStateAnnouncement nat node_addr "(node_addr \<times> real) list"
  | OtherServiceMsg

datatype report = PkgDoneMsg real actor_ref package

text \<open>What the actor hands to the actor system: \<open>send\<close>, \<open>sendEvent\<close>, \<open>sendServiceMsg\<close>.\<close>

datatype delivery =
    Send "actor_ref option" report
  | SendEvent actor_ref event
  | SendServiceMsg actor_ref service_msg

datatype print_line =
    RoutesPackage "node_addr option" node_addr
  | UnexpectedRewardMsg

record link_params =
  latency :: real
  bandwidth :: real

record link_state =
  transfer_time :: real
  alive :: bool

text \<open>
  The fields of \<open>Router\<close>, then the ones it inherits from the time actor and uses
  (\<open>current_time\<close>, \<open>event_queue\<close>, \<open>myAddress\<close>); \<open>sent\<close> and \<open>printed\<close> record, in
  order, the messages handed to the actor system and the lines printed.
  \<open>network_inv\<close> is keyed by the rendering of an actor reference, taken as the
  reference itself. The methods inherited from the time actor (its \<open>initialize\<close> and
  \<open>receiveServiceMsg\<close>, called through \<open>super()\<close>) are not among the sources and are
  taken to leave these fields alone.
\<close>

record router =
  overlord :: "actor_ref option"
  addr :: "node_addr option"
  network :: "(node_addr \<times> actor_ref) list"
  network_inv :: "(actor_ref \<times> node_addr) list"
  neighbors :: "(node_addr \<times> link_params) list"
  pkg_process_delay :: real
  queue_time :: real
  link_states :: "(node_addr \<times> link_state) list"
  full_log :: bool
  current_time :: real
  event_queue :: "event list"
  myAddress :: actor_ref
  sent :: "delivery list"
  printed :: "print_line list"

text \<open>The methods a subclass overrides, as a record of functions on its state.\<close>

record 's strategy =
  isInitialized :: "'s \<Rightarrow> bool"
  receivePackage :: "event \<Rightarrow> 's \<Rightarrow> unit outcome \<times> 's"
  routePackage :: "package \<Rightarrow> 's \<Rightarrow> node_addr option outcome \<times> 's"
  sendToBrokenLink :: "package \<Rightarrow> 's \<Rightarrow> unit outcome \<times> 's"
  breakLink :: "node_addr \<Rightarrow> 's \<Rightarrow> unit outcome \<times> 's"
  restoreLink :: "node_addr \<Rightarrow> 's \<Rightarrow> unit outcome \<times> 's"
  currentStateData :: "package \<Rightarrow> 's \<Rightarrow> cell list option"
  currentStateCols :: "'s \<Rightarrow> string list option"

section \<open>Router\<close>

definition Router_isInitialized :: "'a router_scheme \<Rightarrow> bool" where
  "Router_isInitialized s = (overlord s \<noteq> None)"

definition reportPkgDone :: "package \<Rightarrow> real \<Rightarrow> 'a router_scheme \<Rightarrow> unit outcome \<times> 'a router_scheme" where
  "reportPkgDone pkg time s =
     (Returned (), s\<lparr>sent := sent s @ [Send (overlord s) (PkgDoneMsg time (myAddress s) pkg)]\<rparr>)"

text \<open>
  The branch of \<open>processEvent\<close> taken when the chosen link is alive (lines 64 to 71):
  the three dictionary reads, the division, the write of \<open>transfer_time\<close>, the send.
\<close>

definition forwardPackage :: "node_addr \<Rightarrow> package \<Rightarrow> 'a router_scheme \<Rightarrow> unit outcome \<times> 'a router_scheme" where
  "forwardPackage best_neighbor pkg =
     bind (\<lambda>s. getitem (network s) best_neighbor s) (\<lambda>target.
     bind (\<lambda>s. getitem (neighbors s) best_neighbor s) (\<lambda>nb.
     bind (\<lambda>s. getitem (link_states s) best_neighbor s) (\<lambda>ls s.
       let link_latency = latency nb;
           link_bandwidth = bandwidth nb;
           transfer_start_time = max (current_time s) (transfer_time ls)
       in if link_bandwidth = 0 then (Raised ZeroDivisionError, s)
          else
            let transfer_end_time = transfer_start_time + pkg_size pkg / link_bandwidth;
                finish_time = transfer_end_time + link_latency;
                s1 = s\<lparr>link_states :=
                        AList.update best_neighbor (ls\<lparr>transfer_time := transfer_end_time\<rparr>) (link_states s)\<rparr>
            in (Returned (),
                s1\<lparr>sent := sent s1 @ [SendEvent target (IncomingPkgEvent finish_time (myAddress s1) pkg)]\<rparr>))))"

text \<open>
  Python's numbers are floats (binary64) as soon as a division has produced one, and each
  \<open>+\<close> and \<open>/\<close> on floats rounds its exact result to the nearest double, ties to the
  even one. \<open>round_double\<close> is that rounding on the reals, with the exponent left
  unbounded (no overflow, no subnormal numbers): a positive number is scaled by powers of
  two into the binade from \<open>2 ^ 52\<close> to \<open>2 ^ 53\<close>, where doubles are the integers, rounded
  there and scaled back.
\<close>

definition round_half_even :: "real \<Rightarrow> int" where
  "round_half_even y =
     (let n = \<lfloor>y\<rfloor>; r = y - of_int n
      in if r < 1/2 then n else if 1/2 < r then n + 1 else if even n then n else n + 1)"

function round_pos :: "real \<Rightarrow> real" where
  "round_pos x =
     (if x \<le> 0 then 0
      else if 2 ^ 53 \<le> x then 2 * round_pos (x / 2)
      else if x < 2 ^ 52 then round_pos (2 * x) / 2
      else of_int (round_half_even x))"
  by pat_completeness auto
termination
proof (relation "measure (\<lambda>x. nat \<bar>\<lfloor>log 2 x\<rfloor> - 52\<bar>)")
  show "wf (measure (\<lambda>x. nat \<bar>\<lfloor>log 2 x\<rfloor> - 52\<bar>))" by simp
next
  fix x :: real
  assume pos: "\<not> x \<le> 0" and big: "2 ^ 53 \<le> x"
  have "2 powr 53 \<le> x" using big by simp
  then have "53 \<le> log 2 x" using pos by (simp add: le_log_iff)
  then have f: "53 \<le> \<lfloor>log 2 x\<rfloor>" by (simp add: le_floor_iff)
  have "log 2 (x / 2) = log 2 x - 1" using pos by (simp add: log_divide)
  then have "\<lfloor>log 2 (x / 2)\<rfloor> = \<lfloor>log 2 x\<rfloor> - 1" by simp
  with f show "(x / 2, x) \<in> measure (\<lambda>x. nat \<bar>\<lfloor>log 2 x\<rfloor> - 52\<bar>)" by simp
next
  fix x :: real
  assume pos: "\<not> x \<le> 0" and small: "x < 2 ^ 52"
  have "x < 2 powr 52" using small by simp
  then have "log 2 x < 52" using pos by (simp add: log_less_iff)
  then have f: "\<lfloor>log 2 x\<rfloor> < 52" by (simp add: floor_less_iff)
  have "log 2 (2 * x) = log 2 x + 1" using pos by (simp add: log_mult)
  then have "\<lfloor>log 2 (2 * x)\<rfloor> = \<lfloor>log 2 x\<rfloor> + 1" by simp
  with f show "(2 * x, x) \<in> measure (\<lambda>x. nat \<bar>\<lfloor>log 2 x\<rfloor> - 52\<bar>)" by simp
qed

declare round_pos.simps [simp del]

definition round_double :: "real \<Rightarrow> real" where
  "round_double x = (if x < 0 then - round_pos (- x) else round_pos x)"

text \<open>
  The same branch (lines 64 to 71) with the quotient and the two sums rounded by \<open>rnd\<close>,
  as Python computes them on floats when \<open>rnd\<close> is \<open>round_double\<close> and the numbers read
  from the state and the package are doubles. With the identity for \<open>rnd\<close> it is
  \<open>forwardPackage\<close>, whose arithmetic is exact.
\<close>

definition forwardPackage_float ::
  "(real \<Rightarrow> real) \<Rightarrow> node_addr \<Rightarrow> package \<Rightarrow> 'a router_scheme \<Rightarrow> unit outcome \<times> 'a router_scheme" where
  "forwardPackage_float rnd best_neighbor pkg =
     bind (\<lambda>s. getitem (network s) best_neighbor s) (\<lambda>target.
     bind (\<lambda>s. getitem (neighbors s) best_neighbor s) (\<lambda>nb.
     bind (\<lambda>s. getitem (link_states s) best_neighbor s) (\<lambda>ls s.
       let link_latency = latency nb;
           link_bandwidth = bandwidth nb;
           transfer_start_time = max (current_time s) (transfer_time ls)
       in if link_bandwidth = 0 then (Raised ZeroDivisionError, s)
          else
            let transfer_end_time = rnd (transfer_start_time + rnd (pkg_size pkg / link_bandwidth));
                finish_time = rnd (transfer_end_time + link_latency);
                s1 = s\<lparr>link_states :=
                        AList.update best_neighbor (ls\<lparr>transfer_time := transfer_end_time\<rparr>) (link_states s)\<rparr>
            in (Returned (),
                s1\<lparr>sent := sent s1 @ [SendEvent target (IncomingPkgEvent finish_time (myAddress s1) pkg)]\<rparr>))))"

definition set_alive :: "node_addr \<Rightarrow> bool \<Rightarrow> 'a router_scheme \<Rightarrow> unit outcome \<times> 'a router_scheme" where
  "set_alive n b =
     bind (\<lambda>s. getitem (link_states s) n s) (\<lambda>ls s.
       (Returned (), s\<lparr>link_states := AList.update n (ls\<lparr>alive := b\<rparr>) (link_states s)\<rparr>))"

text \<open>The trace record appended before routing (lines 53 to 56).\<close>

definition trace_package :: "'a router_scheme strategy \<Rightarrow> package \<Rightarrow> 'a router_scheme \<Rightarrow> package" where
  "trace_package H pkg s =
     (if full_log s then route_add (currentStateData H pkg s) (currentStateCols H s) pkg
      else route_add (Some [NumVal (current_time s), AddrVal (addr s)]) (Some [''time'', ''cur_node'']) pkg)"

definition processEvent :: "'a router_scheme strategy \<Rightarrow> event \<Rightarrow> 'a router_scheme \<Rightarrow> unit outcome \<times> 'a router_scheme" where
  "processEvent H event s =
     (if \<not> isInitialized H s then (Raised RouterNotInitialized, s)
      else case event of
        IncomingPkgEvent t sender pkg \<Rightarrow>
          (let s1 = s\<lparr>queue_time := max (current_time s) (queue_time s) + pkg_process_delay s\<rparr>;
               new_event = ProcessPkgEvent (queue_time s1) sender pkg
           in (Returned (), s1\<lparr>event_queue := event_queue s1 @ [new_event]\<rparr>))
      | ProcessPkgEvent t sender pkg0 \<Rightarrow>
          bind (receivePackage H event) (\<lambda>_ s1.
            let pkg = trace_package H pkg0 s1;
                s2 = s1\<lparr>printed := printed s1 @ [RoutesPackage (addr s1) (dst pkg)]\<rparr>
            in if Some (dst pkg) = addr s2 then reportPkgDone pkg (current_time s2) s2
               else bind (routePackage H pkg) (\<lambda>best_neighbor.
                      case best_neighbor of
                        None \<Rightarrow> (\<lambda>s3. (Raised KeyError, s3))
                      | Some bn \<Rightarrow>
                          bind (\<lambda>s3. getitem (link_states s3) bn s3) (\<lambda>ls.
                            if alive ls then forwardPackage bn pkg
                            else sendToBrokenLink H pkg)) s2) s
      | LinkBreakMsg n \<Rightarrow> bind (set_alive n False) (\<lambda>_. breakLink H n) s
      | LinkRestoreMsg n \<Rightarrow> bind (set_alive n True) (\<lambda>_. restoreLink H n) s
      | OtherEvent \<Rightarrow> (Returned (), s))"

text \<open>The base class: every overridable method is \<open>pass\<close> (it returns None).\<close>

definition Router_strategy :: "'a router_scheme strategy" where
  "Router_strategy =
     \<lparr>isInitialized = Router_isInitialized,
      receivePackage = (\<lambda>_ s. (Returned (), s)),
      routePackage = (\<lambda>_ s. (Returned None, s)),
      sendToBrokenLink = (\<lambda>_ s. (Returned (), s)),
      breakLink = (\<lambda>_ s. (Returned (), s)),
      restoreLink = (\<lambda>_ s. (Returned (), s)),
      currentStateData = (\<lambda>_ _. None),
      currentStateCols = (\<lambda>_. None)\<rparr>"

text \<open>
  Modelled from the spec: the initialization messages (module \<open>messages\<close>), carrying the
  node's address, neighbor table, topology, processing delay and logging flag; the
  Q-routing one carries the learning rate as well.
\<close>

datatype init_msg =
    RouterInitMsg node_addr "(node_addr \<times> link_params) list" "(node_addr \<times> actor_ref) list" real bool
  | SimpleQRouterInitMsg node_addr "(node_addr \<times> link_params) list" "(node_addr \<times> actor_ref) list" real bool real
  | OtherInitMsg

fun router_init_fields ::
  "init_msg \<Rightarrow> (node_addr \<times> (node_addr \<times> link_params) list \<times> (node_addr \<times> actor_ref) list \<times> real \<times> bool) option" where
  "router_init_fields (RouterInitMsg a nbs net d fl) = Some (a, nbs, net, d, fl)"
| "router_init_fields (SimpleQRouterInitMsg a nbs net d fl lr) = Some (a, nbs, net, d, fl)"
| "router_init_fields OtherInitMsg = None"

definition Router_initialize :: "init_msg \<Rightarrow> actor_ref \<Rightarrow> 'a router_scheme \<Rightarrow> 'a router_scheme" where
  "Router_initialize message sender s =
     (case router_init_fields message of
        None \<Rightarrow> s
      | Some (a, nbs, net, d, fl) \<Rightarrow>
          let s1 = s\<lparr>overlord := Some sender, addr := Some a, neighbors := nbs, network := net,
                     pkg_process_delay := d,
                     network_inv := fold (\<lambda>(a', target). AList.update target a') net [],
                     full_log := fl\<rparr>
          in s1\<lparr>link_states :=
                  fold (\<lambda>n. AList.update n \<lparr>transfer_time = 0, alive = True\<rparr>) (keys (neighbors s1)) (link_states s1)\<rparr>)"

section \<open>QRouter and SimpleQRouter\<close>

text \<open>
  \<open>reward_pending\<close> maps a package id to the state \<open>(current_time, dst)\<close> recorded when
  the package was routed. \<open>Q\<close> maps a destination to the dictionary of the neighbors'
  estimates; \<open>broken_link_Qs\<close> maps a broken neighbor to the stashed column of \<open>Q\<close>.
  The methods QRouter leaves to its subclass (\<open>getState\<close>, \<open>act\<close>, \<open>mkSample\<close>,
  \<open>observe\<close>) are those of SimpleQRouter, the one subclass of the source.
\<close>

record simple_q_router = router +
  reward_pending :: "(nat \<times> real \<times> node_addr) list"
  Q :: "(node_addr \<times> (node_addr \<times> real) list) list"
  learning_rate :: "real option"
  broken_link_Qs :: "(node_addr \<times> (node_addr \<times> real) list) list"
  steps :: nat

text \<open>
  \<open>min(dct.items(), key=lambda x: x[1])\<close>: the first item, in insertion order, whose
  value is least; ValueError on an empty dictionary.
\<close>

fun min_item :: "'k \<times> real \<Rightarrow> ('k \<times> real) list \<Rightarrow> 'k \<times> real" where
  "min_item best [] = best"
| "min_item best (x # xs) = min_item (if snd x < snd best then x else best) xs"

definition dict_min :: "('k \<times> real) list \<Rightarrow> 's \<Rightarrow> ('k \<times> real) outcome \<times> 's" where
  "dict_min dct s = (case dct of [] \<Rightarrow> (Raised ValueError, s) | x # xs \<Rightarrow> (Returned (min_item x xs), s))"

fun event_sender :: "event \<Rightarrow> actor_ref option" where
  "event_sender (IncomingPkgEvent t sender pkg) = Some sender"
| "event_sender (ProcessPkgEvent t sender pkg) = Some sender"
| "event_sender _ = None"

fun getContents :: "event \<Rightarrow> package option" where
  "getContents (IncomingPkgEvent t sender pkg) = Some pkg"
| "getContents (ProcessPkgEvent t sender pkg) = Some pkg"
| "getContents _ = None"

definition sendServiceMsg :: "actor_ref \<Rightarrow> service_msg \<Rightarrow> 'a router_scheme \<Rightarrow> unit outcome \<times> 'a router_scheme" where
  "sendServiceMsg target msg s = (Returned (), s\<lparr>sent := sent s @ [SendServiceMsg target msg]\<rparr>)"

definition SimpleQRouter_mkRewardMsg ::
  "package \<Rightarrow> 'a simple_q_router_scheme \<Rightarrow> service_msg outcome \<times> 'a simple_q_router_scheme" where
  "SimpleQRouter_mkRewardMsg pkg s =
     (let d = dst pkg
      in if addr s = Some d then (Returned (SimpleRewardMsg (pkg_id pkg) (current_time s) 0 d), s)
         else bind (getitem (Q s) d) (\<lambda>row.
              bind (dict_min row) (\<lambda>best s'.
                (Returned (SimpleRewardMsg (pkg_id pkg) (current_time s') (snd best) d), s'))) s)"

definition QRouter_receivePackage ::
  "(package \<Rightarrow> 'a router_scheme \<Rightarrow> service_msg outcome \<times> 'a router_scheme) \<Rightarrow>
   event \<Rightarrow> 'a router_scheme \<Rightarrow> unit outcome \<times> 'a router_scheme" where
  "QRouter_receivePackage mkRewardMsg pkg_event s =
     (case (event_sender pkg_event, getContents pkg_event) of
        (Some sender, Some pkg) \<Rightarrow> bind (mkRewardMsg pkg) (\<lambda>msg. sendServiceMsg sender msg) s
      | _ \<Rightarrow> (Raised AttributeError, s))"

definition SimpleQRouter_getState :: "package \<Rightarrow> 'a simple_q_router_scheme \<Rightarrow> real \<times> node_addr" where
  "SimpleQRouter_getState pkg s = (current_time s, dst pkg)"

definition SimpleQRouter_act ::
  "real \<times> node_addr \<Rightarrow> 'a simple_q_router_scheme \<Rightarrow> node_addr option outcome \<times> 'a simple_q_router_scheme" where
  "SimpleQRouter_act state =
     (let d = snd state
      in bind (\<lambda>s. getitem (Q s) d s) (\<lambda>row.
         bind (dict_min row) (\<lambda>best s. (Returned (Some (fst best)), s))))"

definition QRouter_routePackage ::
  "package \<Rightarrow> 'a simple_q_router_scheme \<Rightarrow> node_addr option outcome \<times> 'a simple_q_router_scheme" where
  "QRouter_routePackage pkg s =
     (let state = SimpleQRouter_getState pkg s;
          s1 = s\<lparr>reward_pending := AList.update (pkg_id pkg) state (reward_pending s)\<rparr>
      in SimpleQRouter_act state s1)"

text \<open>
  In \<open>receiveServiceMsg\<close> the variable \<open>prev_state\<close> holds the integer 0 until the lookup
  in \<open>reward_pending\<close> replaces it by a recorded state.
\<close>

datatype prev_state = PyInt int | PyState "real \<times> node_addr"

definition SimpleQRouter_mkSample ::
  "service_msg \<Rightarrow> prev_state \<Rightarrow> actor_ref \<Rightarrow> 'a router_scheme \<Rightarrow>
   (node_addr \<times> node_addr \<times> real) outcome \<times> 'a router_scheme" where
  "SimpleQRouter_mkSample message prev sender s =
     (case message of
        SimpleRewardMsg pid cur_time estimate d \<Rightarrow>
          bind (getitem (network_inv s) sender) (\<lambda>sender_addr s'.
            case prev of
              PyInt i \<Rightarrow> (Raised TypeError, s')
            | PyState st \<Rightarrow>
                let sent_time = fst st;
                    new_estimate = estimate + (cur_time - sent_time)
                in (Returned (d, sender_addr, new_estimate), s')) s
      | _ \<Rightarrow> (Raised UnsupportedRewardMsg, s))"

definition SimpleQRouter_observe ::
  "node_addr \<times> node_addr \<times> real \<Rightarrow> 'a simple_q_router_scheme \<Rightarrow> unit outcome \<times> 'a simple_q_router_scheme" where
  "SimpleQRouter_observe sample =
     (case sample of (d, sender_addr, new_estimate) \<Rightarrow>
        bind (\<lambda>s. getitem (Q s) d s) (\<lambda>row.
        bind (getitem row sender_addr) (\<lambda>q s.
          case learning_rate s of
            None \<Rightarrow> (Raised TypeError, s)
          | Some lr \<Rightarrow>
              let delta = lr * (new_estimate - q)
              in (Returned (), s\<lparr>Q := AList.update d (AList.update sender_addr (q + delta) row) (Q s)\<rparr>))))"

fun is_RewardMsg :: "service_msg \<Rightarrow> nat option" where
  "is_RewardMsg (RewardMsg pid) = Some pid"
| "is_RewardMsg (SimpleRewardMsg pid cur_time estimate d) = Some pid"
| "is_RewardMsg _ = None"

definition QRouter_receiveServiceMsg ::
  "service_msg \<Rightarrow> actor_ref \<Rightarrow> 'a simple_q_router_scheme \<Rightarrow> unit outcome \<times> 'a simple_q_router_scheme" where
  "QRouter_receiveServiceMsg message sender s =
     (case is_RewardMsg message of
        None \<Rightarrow> (Returned (), s)
      | Some pid \<Rightarrow>
          let (prev, s1) =
                (case map_of (reward_pending s) pid of
                   Some st \<Rightarrow> (PyState st, s)
                 | None \<Rightarrow> (PyInt 0, s\<lparr>printed := printed s @ [UnexpectedRewardMsg]\<rparr>))
          in bind (SimpleQRouter_mkSample message prev sender) SimpleQRouter_observe s1)"

fun breakLink_loop ::
  "node_addr \<Rightarrow> node_addr list \<Rightarrow> (node_addr \<times> real) list \<Rightarrow> 'a simple_q_router_scheme \<Rightarrow>
   (node_addr \<times> real) list outcome \<times> 'a simple_q_router_scheme" where
  "breakLink_loop v [] broken_Qs s = (Returned broken_Qs, s)"
| "breakLink_loop v (n # ns) broken_Qs s =
     (case map_of (Q s) n of
        None \<Rightarrow> (Raised KeyError, s)
      | Some row \<Rightarrow>
          (case map_of row v of
             None \<Rightarrow> (Raised KeyError, s)
           | Some q \<Rightarrow>
               breakLink_loop v ns (AList.update n q broken_Qs)
                 (s\<lparr>Q := AList.update n (AList.update v 100500 row) (Q s)\<rparr>)))"

definition SimpleQRouter_breakLink ::
  "node_addr \<Rightarrow> 'a simple_q_router_scheme \<Rightarrow> unit outcome \<times> 'a simple_q_router_scheme" where
  "SimpleQRouter_breakLink v s =
     bind (breakLink_loop v (keys (network s)) []) (\<lambda>broken_Qs s'.
       (Returned (), s'\<lparr>broken_link_Qs := AList.update v broken_Qs (broken_link_Qs s')\<rparr>)) s"

fun restoreLink_loop ::
  "node_addr \<Rightarrow> (node_addr \<times> real) list \<Rightarrow> 'a simple_q_router_scheme \<Rightarrow>
   unit outcome \<times> 'a simple_q_router_scheme" where
  "restoreLink_loop v [] s = (Returned (), s)"
| "restoreLink_loop v ((n, val) # rest) s =
     (case map_of (Q s) n of
        None \<Rightarrow> (Raised KeyError, s)
      | Some row \<Rightarrow> restoreLink_loop v rest (s\<lparr>Q := AList.update n (AList.update v val row) (Q s)\<rparr>))"

definition SimpleQRouter_restoreLink ::
  "node_addr \<Rightarrow> 'a simple_q_router_scheme \<Rightarrow> unit outcome \<times> 'a simple_q_router_scheme" where
  "SimpleQRouter_restoreLink v =
     bind (\<lambda>s. getitem (broken_link_Qs s) v s) (\<lambda>broken_Qs.
     bind (restoreLink_loop v broken_Qs) (\<lambda>_ s.
       (Returned (), s\<lparr>broken_link_Qs := AList.delete v (broken_link_Qs s)\<rparr>)))"

definition SimpleQRouter_initialize ::
  "init_msg \<Rightarrow> actor_ref \<Rightarrow> 'a simple_q_router_scheme \<Rightarrow> 'a simple_q_router_scheme" where
  "SimpleQRouter_initialize message sender s =
     (let s1 = Router_initialize message sender s
      in case message of
           SimpleQRouterInitMsg a nbs net d fl lr \<Rightarrow>
             let s2 = s1\<lparr>learning_rate := Some lr\<rparr>
             in s2\<lparr>Q :=
                    fold (\<lambda>n. AList.update n
                                 (fold (\<lambda>(k, data). AList.update k (if k = n then 40 else 100500))
                                       (neighbors s2) []))
                         (keys (network s2)) (Q s2)\<rparr>
         | _ \<Rightarrow> s1)"

definition SimpleQRouter_strategy :: "'a simple_q_router_scheme strategy" where
  "SimpleQRouter_strategy =
     \<lparr>isInitialized = Router_isInitialized,
      receivePackage = QRouter_receivePackage SimpleQRouter_mkRewardMsg,
      routePackage = QRouter_routePackage,
      sendToBrokenLink = (\<lambda>_ s. (Returned (), s)),
      breakLink = SimpleQRouter_breakLink,
      restoreLink = SimpleQRouter_restoreLink,
      currentStateData = (\<lambda>pkg s. Some [NumVal (current_time s), IdVal (pkg_id pkg)]),
      currentStateCols = (\<lambda>_. Some [''time'', ''pkg_id''])\<rparr>"

text \<open>The objects as their constructors leave them.\<close>

definition Router_new :: "actor_ref \<Rightarrow> router" where
  "Router_new me =
     \<lparr>overlord = None, addr = None, network = [], network_inv = [], neighbors = [],
      pkg_process_delay = 0, queue_time = 0, link_states = [], full_log = False,
      current_time = 0, event_queue = [], myAddress = me, sent = [], printed = []\<rparr>"

definition SimpleQRouter_new :: "actor_ref \<Rightarrow> simple_q_router" where
  "SimpleQRouter_new me =
     \<lparr>overlord = None, addr = None, network = [], network_inv = [], neighbors = [],
      pkg_process_delay = 0, queue_time = 0, link_states = [], full_log = False,
      current_time = 0, event_queue = [], myAddress = me, sent = [], printed = [],
      reward_pending = [], Q = [], learning_rate = None, broken_link_Qs = [], steps = 0\<rparr>"

section \<open>LinkStateRouter\<close>

text \<open>
  Modelled from the spec: the link-state holder (module \<open>router_mixins\<close>, not among the
  sources). It keeps the local sequence counter, the last accepted announcement of each
  origin and the topology graph derived from them; \<open>processLSAnnouncement\<close> accepts an
  announcement, and applies it to the graph, iff its sequence number is newer than the
  last one seen from its origin, and tells whether it did. The rule of the spec does not
  depend on the list of nodes the caller passes.
\<close>

record link_state_router = router +
  seq_num :: nat
  announcements :: "(node_addr \<times> nat \<times> (node_addr \<times> real) list) list"
  network_graph :: "(node_addr \<times> (node_addr \<times> real) list) list"

definition is_newer :: "nat \<Rightarrow> node_addr \<Rightarrow> 'a link_state_router_scheme \<Rightarrow> bool" where
  "is_newer seq origin s =
     (case map_of (announcements s) origin of None \<Rightarrow> True | Some last_seen \<Rightarrow> fst last_seen < seq)"

definition processLSAnnouncement ::
  "service_msg \<Rightarrow> node_addr list \<Rightarrow> 'a link_state_router_scheme \<Rightarrow>
   bool outcome \<times> 'a link_state_router_scheme" where
  "processLSAnnouncement announcement nodes s =
     (case announcement of
        LinkStateAnnouncement seq origin snapshot \<Rightarrow>
          if is_newer seq origin s
          then (Returned True,
                s\<lparr>announcements := AList.update origin (seq, snapshot) (announcements s),
                  network_graph := AList.update origin snapshot (network_graph s)\<rparr>)
          else (Returned False, s)
      | _ \<Rightarrow> (Raised AttributeError, s))"

fun broadcast_loop ::
  "node_addr list \<Rightarrow> service_msg \<Rightarrow> actor_ref \<Rightarrow> 'a router_scheme \<Rightarrow> unit outcome \<times> 'a router_scheme" where
  "broadcast_loop [] announcement sender s = (Returned (), s)"
| "broadcast_loop (n # ns) announcement sender s =
     (case map_of (network s) n of
        None \<Rightarrow> (Raised KeyError, s)
      | Some target \<Rightarrow>
          if sender \<noteq> target
          then broadcast_loop ns announcement sender (s\<lparr>sent := sent s @ [SendServiceMsg target announcement]\<rparr>)
          else broadcast_loop ns announcement sender s)"

definition broadcastAnnouncement ::
  "service_msg \<Rightarrow> actor_ref \<Rightarrow> 'a router_scheme \<Rightarrow> unit outcome \<times> 'a router_scheme" where
  "broadcastAnnouncement announcement sender s = broadcast_loop (keys (neighbors s)) announcement sender s"

definition LinkStateRouter_receiveServiceMsg ::
  "service_msg \<Rightarrow> actor_ref \<Rightarrow> 'a link_state_router_scheme \<Rightarrow> unit outcome \<times> 'a link_state_router_scheme" where
  "LinkStateRouter_receiveServiceMsg message sender s =
     (case message of
        LinkStateAnnouncement seq origin snapshot \<Rightarrow>
          bind (processLSAnnouncement message (keys (network s))) (\<lambda>accepted.
            if accepted then broadcastAnnouncement message sender
            else (\<lambda>s'. (Returned (), s'))) s
      | _ \<Rightarrow> (Returned (), s))"

section \<open>Example states\<close>

text \<open>
  Node 1 in the middle of the line 0 - 1 - 2, every link with latency 1 and bandwidth 10,
  initialized by the overlord with learning rate 1/2.
\<close>

definition example_neighbors :: "(node_addr \<times> link_params) list" where
  "example_neighbors = [(0, \<lparr>latency = 1, bandwidth = 10\<rparr>), (2, \<lparr>latency = 1, bandwidth = 10\<rparr>)]"

definition example_network :: "(node_addr \<times> actor_ref) list" where
  "example_network = [(0, ActorAddress 10), (1, ActorAddress 11), (2, ActorAddress 12)]"

definition example_q :: simple_q_router where
  "example_q =
     SimpleQRouter_initialize
       (SimpleQRouterInitMsg 1 example_neighbors example_network 0 False (1/2))
       (ActorAddress 100) (SimpleQRouter_new (ActorAddress 11))"

section \<open>Predicates of the statements, example data\<close>

text \<open>An overridable method that never raises the error of the initialization gate.\<close>

definition never_uninitialized :: "('x \<Rightarrow> 's \<Rightarrow> 'r outcome \<times> 's) \<Rightarrow> bool" where
  "never_uninitialized f = (\<forall>x s. fst (f x s) \<noteq> Raised RouterNotInitialized)"

text \<open>An overridable method that leaves the link states and the neighbor table alone.\<close>

definition keeps_links :: "('x \<Rightarrow> 'a router_scheme \<Rightarrow> 'r outcome \<times> 'a router_scheme) \<Rightarrow> bool" where
  "keeps_links f = (\<forall>x s. link_states (snd (f x s)) = link_states s \<and> neighbors (snd (f x s)) = neighbors s)"

text \<open>Every link of the first state is still there in the second, its cursor no earlier.\<close>

definition links_advance :: "'a router_scheme \<Rightarrow> 'a router_scheme \<Rightarrow> bool" where
  "links_advance s s' =
     (\<forall>n ls. map_of (link_states s) n = Some ls \<longrightarrow>
        (\<exists>ls'. map_of (link_states s') n = Some ls' \<and> transfer_time ls \<le> transfer_time ls'))"

fun is_report :: "delivery \<Rightarrow> bool" where
  "is_report (Send target r) = True"
| "is_report _ = False"

fun is_packet_event :: "delivery \<Rightarrow> bool" where
  "is_packet_event (SendEvent target e) = True"
| "is_packet_event _ = False"

definition example_pkg :: package where
  "example_pkg = \<lparr>pkg_id = 7, dst = 2, pkg_size = 5, route = []\<rparr>"

definition example_traced :: package where
  "example_traced = example_pkg\<lparr>route := [(Some [NumVal 0, AddrVal (Some 1)], Some [''time'', ''cur_node''])]\<rparr>"

definition home_pkg :: package where
  "home_pkg = \<lparr>pkg_id = 8, dst = 1, pkg_size = 5, route = []\<rparr>"

definition home_traced :: package where
  "home_traced = home_pkg\<lparr>route := [(Some [NumVal 0, AddrVal (Some 1)], Some [''time'', ''cur_node''])]\<rparr>"

definition unit_pkg :: package where
  "unit_pkg = \<lparr>pkg_id = 11, dst = 2, pkg_size = 1, route = []\<rparr>"

definition unit_pkg2 :: package where
  "unit_pkg2 = \<lparr>pkg_id = 12, dst = 2, pkg_size = 1, route = []\<rparr>"

definition float_once :: simple_q_router where
  "float_once =
     example_q\<lparr>link_states := [(0, \<lparr>transfer_time = 0, alive = True\<rparr>),
                                (2, \<lparr>transfer_time = 7205759403792794 / 2 ^ 56, alive = True\<rparr>)],
               sent := [SendEvent (ActorAddress 12)
                          (IncomingPkgEvent (4953959590107546 / 2 ^ 52) (ActorAddress 11) unit_pkg)]\<rparr>"

definition float_twice :: simple_q_router where
  "float_twice =
     example_q\<lparr>link_states := [(0, \<lparr>transfer_time = 0, alive = True\<rparr>),
                                (2, \<lparr>transfer_time = 7205759403792794 / 2 ^ 55, alive = True\<rparr>)],
               sent := [SendEvent (ActorAddress 12)
                          (IncomingPkgEvent (4953959590107546 / 2 ^ 52) (ActorAddress 11) unit_pkg),
                        SendEvent (ActorAddress 12)
                          (IncomingPkgEvent (5404319552844595 / 2 ^ 52) (ActorAddress 11) unit_pkg2)]\<rparr>"

definition example_routed :: simple_q_router where
  "example_routed = example_q\<lparr>reward_pending := [(7, (0, 2))]\<rparr>"

text \<open>The link-state router as its constructor leaves it, and after the base initialization.\<close>

definition LinkStateRouter_new :: "actor_ref \<Rightarrow> link_state_router" where
  "LinkStateRouter_new me =
     \<lparr>overlord = None, addr = None, network = [], network_inv = [], neighbors = [],
      pkg_process_delay = 0, queue_time = 0, link_states = [], full_log = False,
      current_time = 0, event_queue = [], myAddress = me, sent = [], printed = [],
      seq_num = 0, announcements = [], network_graph = []\<rparr>"

definition example_ls :: link_state_router where
  "example_ls =
     Router_initialize (RouterInitMsg 1 example_neighbors example_network 0 False)
       (ActorAddress 100) (LinkStateRouter_new (ActorAddress 11))"

text \<open>The references of the neighbors, in the order of the neighbor table.\<close>

definition neighbor_refs :: "'a router_scheme \<Rightarrow> actor_ref list" where
  "neighbor_refs s = List.map_filter (map_of (network s)) (keys (neighbors s))"

definition example_lsa :: service_msg where
  "example_lsa = LinkStateAnnouncement 0 0 [(1, 1)]"

definition example_ls_flooded :: link_state_router where
  "example_ls_flooded =
     example_ls\<lparr>sent := [SendServiceMsg (ActorAddress 12) example_lsa],
                announcements := [(0, (0, [(1, 1)]))],
                network_graph := [(0, [(1, 1)])]\<rparr>"

text \<open>\<open>Q[n][v]\<close>, when both keys are there.\<close>

definition lookup_Q :: "'a simple_q_router_scheme \<Rightarrow> node_addr \<Rightarrow> node_addr \<Rightarrow> real option" where
  "lookup_Q s n v = (case map_of (Q s) n of None \<Rightarrow> None | Some row \<Rightarrow> map_of row v)"

text \<open>
  What a SimpleQRouter is handed between two events of interest: events for
  \<open>processEvent\<close> and service messages for \<open>receiveServiceMsg\<close>, each leaving the state
  it leaves, whether it returns or raises.
\<close>

datatype input = Event event | Service service_msg actor_ref

fun SimpleQRouter_receive :: "input \<Rightarrow> 'a simple_q_router_scheme \<Rightarrow> 'a simple_q_router_scheme" where
  "SimpleQRouter_receive (Event e) s = snd (processEvent SimpleQRouter_strategy e s)"
| "SimpleQRouter_receive (Service message sender) s = snd (QRouter_receiveServiceMsg message sender s)"

text \<open>
  What handling anything but a break or a restore of \<open>v\<close> keeps: the overlord, the
  topology, the set of links, the stash of \<open>v\<close> and the set of rows of \<open>Q\<close>.
\<close>

definition stash_kept :: "node_addr \<Rightarrow> 'a simple_q_router_scheme \<Rightarrow> 'a simple_q_router_scheme \<Rightarrow> bool" where
  "stash_kept v s s' =
     (overlord s' = overlord s \<and> network s' = network s \<and>
      dom (map_of (link_states s')) = dom (map_of (link_states s)) \<and>
      map_of (broken_link_Qs s') v = map_of (broken_link_Qs s) v \<and>
      dom (map_of (Q s')) = dom (map_of (Q s)))"

definition example_broken :: simple_q_router where
  "example_broken =
     example_routed\<lparr>link_states := [(0, \<lparr>transfer_time = 0, alive = True\<rparr>),
                                    (2, \<lparr>transfer_time = 0, alive = False\<rparr>)],
                    Q := [(0, [(0, 40), (2, 100500)]), (1, [(0, 100500), (2, 100500)]),
                          (2, [(0, 100500), (2, 100500)])],
                    broken_link_Qs := [(2, [(0, 100500), (1, 100500), (2, 40)])]\<rparr>"

definition example_inputs :: "input list" where
  "example_inputs = [Service (SimpleRewardMsg 7 1 0 2) (ActorAddress 12)]"

section \<open>Properties\<close>

subsection \<open>Sequencing and lookups\<close>

lemma bind_no_error:
  assumes "fst (m s) \<noteq> Raised E" and "\<And>x s'. fst (f x s') \<noteq> Raised E"
  shows "fst (bind m f s) \<noteq> Raised E"
proof (cases "m s")
  case (Pair r s')
  with assms show ?thesis by (cases r) (simp_all add: bind_def)
qed

lemma bind_RaisedE:
  assumes "fst (bind m f s) = Raised E"
  obtains "fst (m s) = Raised E" | x s' where "m s = (Returned x, s')" and "fst (f x s') = Raised E"
proof (cases "m s")
  case (Pair r s')
  with assms that show ?thesis by (cases r) (simp_all add: bind_def)
qed

lemma getitem_not_uninit: "fst (getitem d k s) \<noteq> Raised RouterNotInitialized"
  by (simp add: getitem_def split: option.split)

lemma dict_min_not_uninit: "fst (dict_min d s) \<noteq> Raised RouterNotInitialized"
  by (simp add: dict_min_def split: list.split)

lemma example_q_eq: "example_q =
   \<lparr>overlord = Some (ActorAddress 100), addr = Some 1,
    network = [(0, ActorAddress 10), (1, ActorAddress 11), (2, ActorAddress 12)],
    network_inv = [(ActorAddress 10, 0), (ActorAddress 11, 1), (ActorAddress 12, 2)],
    neighbors = [(0, \<lparr>latency = 1, bandwidth = 10\<rparr>), (2, \<lparr>latency = 1, bandwidth = 10\<rparr>)],
    pkg_process_delay = 0, queue_time = 0,
    link_states = [(0, \<lparr>transfer_time = 0, alive = True\<rparr>), (2, \<lparr>transfer_time = 0, alive = True\<rparr>)],
    full_log = False, current_time = 0, event_queue = [], myAddress = ActorAddress 11,
    sent = [], printed = [], reward_pending = [],
    Q = [(0, [(0, 40), (2, 100500)]), (1, [(0, 100500), (2, 100500)]), (2, [(0, 100500), (2, 40)])],
    learning_rate = Some (1/2), broken_link_Qs = [], steps = 0\<rparr>"
  by (simp add: example_q_def SimpleQRouter_initialize_def Router_initialize_def SimpleQRouter_new_def keys_def example_neighbors_def example_network_def Let_def)

subsection \<open>The methods of SimpleQRouter never raise the error of the gate\<close>

lemma mkRewardMsg_not_uninit: "fst (SimpleQRouter_mkRewardMsg pkg s) \<noteq> Raised RouterNotInitialized"
  unfolding SimpleQRouter_mkRewardMsg_def Let_def
  by (auto elim!: bind_RaisedE simp: getitem_not_uninit dict_min_not_uninit)

lemma receivePackage_not_uninit:
  "never_uninitialized (QRouter_receivePackage SimpleQRouter_mkRewardMsg)"
  unfolding never_uninitialized_def QRouter_receivePackage_def
  by (auto split: option.split elim!: bind_RaisedE simp: mkRewardMsg_not_uninit sendServiceMsg_def)

lemma routePackage_not_uninit: "never_uninitialized QRouter_routePackage"
  unfolding never_uninitialized_def QRouter_routePackage_def SimpleQRouter_act_def Let_def
  by (auto elim!: bind_RaisedE simp: getitem_not_uninit dict_min_not_uninit)

lemma breakLink_loop_not_uninit:
  "fst (breakLink_loop v ns acc s) \<noteq> Raised RouterNotInitialized"
  by (induction ns arbitrary: acc s) (auto split: option.split)

lemma breakLink_not_uninit: "never_uninitialized SimpleQRouter_breakLink"
  unfolding never_uninitialized_def SimpleQRouter_breakLink_def
  by (auto elim!: bind_RaisedE simp: breakLink_loop_not_uninit)

lemma restoreLink_loop_not_uninit:
  "fst (restoreLink_loop v st s) \<noteq> Raised RouterNotInitialized"
  by (induction st arbitrary: s) (auto split: option.splits)

lemma restoreLink_not_uninit: "never_uninitialized SimpleQRouter_restoreLink"
  unfolding never_uninitialized_def SimpleQRouter_restoreLink_def
  by (auto elim!: bind_RaisedE simp: restoreLink_loop_not_uninit getitem_not_uninit)

lemma pass_not_uninit: "never_uninitialized (\<lambda>x s. (Returned y, s))"
  by (simp add: never_uninitialized_def)

lemmas SimpleQRouter_never_uninitialized =
  receivePackage_not_uninit routePackage_not_uninit breakLink_not_uninit restoreLink_not_uninit
  pass_not_uninit

lemma forwardPackage_not_uninit: "fst (forwardPackage n pkg s) \<noteq> Raised RouterNotInitialized"
  unfolding forwardPackage_def
  by (intro bind_no_error getitem_not_uninit) (simp add: Let_def)

lemma set_alive_not_uninit: "fst (set_alive n b s) \<noteq> Raised RouterNotInitialized"
  unfolding set_alive_def
  by (intro bind_no_error getitem_not_uninit) simp

subsection \<open>The initialization gate\<close>

text \<open>
  Claim C8. An event delivered to a router that is not initialized raises
  RouterNotInitialized and leaves the state exactly as it was; an initialized router never
  raises that error, whatever the event, as long as the overridden methods do not raise
  it themselves (those of the classes of the source do not).
\<close>

theorem initialization_gate:
  assumes "never_uninitialized (receivePackage H)"
    and "never_uninitialized (routePackage H)"
    and "never_uninitialized (sendToBrokenLink H)"
    and "never_uninitialized (breakLink H)"
    and "never_uninitialized (restoreLink H)"
  shows "(\<not> isInitialized H s \<longrightarrow> processEvent H ev s = (Raised RouterNotInitialized, s)) \<and>
         (isInitialized H s \<longrightarrow> fst (processEvent H ev s) \<noteq> Raised RouterNotInitialized)"
proof (intro conjI impI)
  assume "\<not> isInitialized H s"
  then show "processEvent H ev s = (Raised RouterNotInitialized, s)"
    by (simp add: processEvent_def)
next
  assume init: "isInitialized H s"
  note hk = assms [unfolded never_uninitialized_def, rule_format]
  show "fst (processEvent H ev s) \<noteq> Raised RouterNotInitialized"
  proof (cases ev)
    case (IncomingPkgEvent t sender pkg)
    with init show ?thesis by (simp add: processEvent_def Let_def)
  next
    case (ProcessPkgEvent t sender pkg0)
    have "fst (bind (receivePackage H ev) (\<lambda>_ s1.
            let pkg = trace_package H pkg0 s1;
                s2 = s1\<lparr>printed := printed s1 @ [RoutesPackage (addr s1) (dst pkg)]\<rparr>
            in if Some (dst pkg) = addr s2 then reportPkgDone pkg (current_time s2) s2
               else bind (routePackage H pkg) (\<lambda>best_neighbor.
                      case best_neighbor of
                        None \<Rightarrow> (\<lambda>s3. (Raised KeyError, s3))
                      | Some bn \<Rightarrow>
                          bind (\<lambda>s3. getitem (link_states s3) bn s3) (\<lambda>ls.
                            if alive ls then forwardPackage bn pkg
                            else sendToBrokenLink H pkg)) s2) s) \<noteq> Raised RouterNotInitialized"
      apply (rule bind_no_error)
       apply (rule hk(1))
      apply (simp add: Let_def reportPkgDone_def)
      apply (intro impI bind_no_error hk(2))
      apply (simp split: option.split)
      apply (intro allI impI bind_no_error getitem_not_uninit)
      apply (simp add: forwardPackage_not_uninit hk(3))
      done
    with init ProcessPkgEvent show ?thesis by (simp add: processEvent_def)
  next
    case (LinkBreakMsg n)
    have "fst (bind (set_alive n False) (\<lambda>_. breakLink H n) s) \<noteq> Raised RouterNotInitialized"
      by (intro bind_no_error set_alive_not_uninit hk(4))
    with init LinkBreakMsg show ?thesis by (simp add: processEvent_def)
  next
    case (LinkRestoreMsg n)
    have "fst (bind (set_alive n True) (\<lambda>_. restoreLink H n) s) \<noteq> Raised RouterNotInitialized"
      by (intro bind_no_error set_alive_not_uninit hk(5))
    with init LinkRestoreMsg show ?thesis by (simp add: processEvent_def)
  next
    case OtherEvent
    with init show ?thesis by (simp add: processEvent_def)
  qed
qed

text \<open>
  The gate on a SimpleQRouter: a link break delivered to the freshly constructed object
  is refused, the same event delivered after initialization is not.
\<close>

theorem initialization_gate_witness:
  "never_uninitialized (receivePackage SimpleQRouter_strategy) \<and>
   never_uninitialized (routePackage SimpleQRouter_strategy) \<and>
   never_uninitialized (sendToBrokenLink SimpleQRouter_strategy) \<and>
   never_uninitialized (breakLink SimpleQRouter_strategy) \<and>
   never_uninitialized (restoreLink SimpleQRouter_strategy) \<and>
   \<not> isInitialized SimpleQRouter_strategy (SimpleQRouter_new (ActorAddress 11)) \<and>
   processEvent SimpleQRouter_strategy (LinkBreakMsg 2) (SimpleQRouter_new (ActorAddress 11)) =
     (Raised RouterNotInitialized, SimpleQRouter_new (ActorAddress 11)) \<and>
   isInitialized SimpleQRouter_strategy example_q \<and>
   fst (processEvent SimpleQRouter_strategy (LinkBreakMsg 2) example_q) \<noteq> Raised RouterNotInitialized"
proof -
  have hooks: "never_uninitialized (receivePackage SimpleQRouter_strategy)"
      "never_uninitialized (routePackage SimpleQRouter_strategy)"
      "never_uninitialized (sendToBrokenLink SimpleQRouter_strategy)"
      "never_uninitialized (breakLink SimpleQRouter_strategy)"
      "never_uninitialized (restoreLink SimpleQRouter_strategy)"
    by (simp_all add: SimpleQRouter_strategy_def SimpleQRouter_never_uninitialized)
  have new: "\<not> isInitialized SimpleQRouter_strategy (SimpleQRouter_new (ActorAddress 11))"
    by (simp add: SimpleQRouter_strategy_def Router_isInitialized_def SimpleQRouter_new_def)
  have init: "isInitialized SimpleQRouter_strategy example_q"
    by (simp add: SimpleQRouter_strategy_def Router_isInitialized_def example_q_eq)
  show ?thesis
    using hooks new init
      initialization_gate [OF hooks, of "SimpleQRouter_new (ActorAddress 11)" "LinkBreakMsg 2"]
      initialization_gate [OF hooks, of example_q "LinkBreakMsg 2"]
    by simp
qed

subsection \<open>Forwarding on a live link\<close>

text \<open>
  Claim C2. An initialized router handles a ProcessPkgEvent whose package is for another
  node, and the neighbor \<open>n\<close> chosen by \<open>routePackage\<close> has a live link: with
  transferStart the later of the current time and the link's \<open>transfer_time\<close>,
  transferEnd = transferStart + size / bandwidth and finish = transferEnd + latency, the
  router sets the link's \<open>transfer_time\<close> to transferEnd and sends to the neighbor an
  IncomingPkgEvent at time finish carrying the package (the same id, destination and size,
  its trace one record longer). The neighbor is in the topology and in the neighbor table,
  and the bandwidth is not zero, so that the quotient exists.
\<close>

theorem forward_on_alive_link:
  assumes "isInitialized H s"
    and "receivePackage H (ProcessPkgEvent t sender pkg0) s = (Returned (), s1)"
    and "pkg = trace_package H pkg0 s1"
    and "addr s1 \<noteq> Some (dst pkg0)"
    and "routePackage H pkg (s1\<lparr>printed := printed s1 @ [RoutesPackage (addr s1) (dst pkg0)]\<rparr>) = (Returned (Some n), s3)"
    and "map_of (link_states s3) n = Some ls" and "alive ls"
    and "map_of (network s3) n = Some target"
    and "map_of (neighbors s3) n = Some nb" and "bandwidth nb \<noteq> 0"
    and "transferStart = max (current_time s3) (transfer_time ls)"
    and "transferEnd = transferStart + pkg_size pkg0 / bandwidth nb"
    and "finish = transferEnd + latency nb"
  shows "processEvent H (ProcessPkgEvent t sender pkg0) s =
           (Returned (),
            s3\<lparr>link_states := AList.update n (ls\<lparr>transfer_time := transferEnd\<rparr>) (link_states s3),
               sent := sent s3 @ [SendEvent target (IncomingPkgEvent finish (myAddress s3) pkg)]\<rparr>)
         \<and> pkg_id pkg = pkg_id pkg0 \<and> dst pkg = dst pkg0 \<and> pkg_size pkg = pkg_size pkg0"
proof -
  have same: "pkg_id pkg = pkg_id pkg0 \<and> dst pkg = dst pkg0 \<and> pkg_size pkg = pkg_size pkg0"
    using assms(3) by (simp add: trace_package_def route_add_def)
  have fwd: "forwardPackage n pkg s3 =
           (Returned (),
            s3\<lparr>link_states := AList.update n (ls\<lparr>transfer_time := transferEnd\<rparr>) (link_states s3),
               sent := sent s3 @ [SendEvent target (IncomingPkgEvent finish (myAddress s3) pkg)]\<rparr>)"
    using assms(6-13) same
    by (simp add: forwardPackage_def bind_def getitem_def Let_def)
  show ?thesis
    using assms(1-7) same fwd
    by (simp add: processEvent_def bind_def getitem_def Let_def)
qed

text \<open>
  Node 1 of the example forwards a package of size 5 for node 2 at time 0: the link to
  node 2 is busy until 1/2 and the package arrives at 3/2.
\<close>

theorem forward_on_alive_link_witness:
  "processEvent SimpleQRouter_strategy (ProcessPkgEvent 0 (ActorAddress 10) example_pkg) example_q =
     (Returned (),
      example_q\<lparr>link_states := [(0, \<lparr>transfer_time = 0, alive = True\<rparr>),
                                (2, \<lparr>transfer_time = 1/2, alive = True\<rparr>)],
                sent := [SendServiceMsg (ActorAddress 10) (SimpleRewardMsg 7 0 40 2),
                         SendEvent (ActorAddress 12) (IncomingPkgEvent (3/2) (ActorAddress 11) example_traced)],
                printed := [RoutesPackage (Some 1) 2],
                reward_pending := [(7, (0, 2))]\<rparr>)"
proof -
  let ?s1 = "example_q\<lparr>sent := [SendServiceMsg (ActorAddress 10) (SimpleRewardMsg 7 0 40 2)]\<rparr>"
  let ?s3 = "example_q\<lparr>sent := [SendServiceMsg (ActorAddress 10) (SimpleRewardMsg 7 0 40 2)],
                printed := [RoutesPackage (Some 1) 2],
                reward_pending := [(7, (0, 2))]\<rparr>"
  have h1: "isInitialized SimpleQRouter_strategy example_q"
    by (simp add: SimpleQRouter_strategy_def Router_isInitialized_def example_q_eq)
  have h2: "receivePackage SimpleQRouter_strategy (ProcessPkgEvent 0 (ActorAddress 10) example_pkg) example_q
              = (Returned (), ?s1)"
    by (simp add: SimpleQRouter_strategy_def QRouter_receivePackage_def SimpleQRouter_mkRewardMsg_def
        bind_def getitem_def dict_min_def sendServiceMsg_def example_q_eq example_pkg_def)
  have h3: "example_traced = trace_package SimpleQRouter_strategy example_pkg ?s1"
    by (simp add: trace_package_def route_add_def example_traced_def example_q_eq example_pkg_def)
  have h4: "addr ?s1 \<noteq> Some (dst example_pkg)"
    by (simp add: example_q_eq example_pkg_def)
  have h5: "routePackage SimpleQRouter_strategy example_traced
              (?s1\<lparr>printed := printed ?s1 @ [RoutesPackage (addr ?s1) (dst example_pkg)]\<rparr>)
              = (Returned (Some 2), ?s3)"
    by (simp add: SimpleQRouter_strategy_def QRouter_routePackage_def SimpleQRouter_act_def
        SimpleQRouter_getState_def bind_def getitem_def dict_min_def example_q_eq example_pkg_def
        example_traced_def)
  have h6: "map_of (link_states ?s3) 2 = Some \<lparr>transfer_time = 0, alive = True\<rparr>"
    and h7: "alive \<lparr>transfer_time = 0, alive = True\<rparr>"
    and h8: "map_of (network ?s3) 2 = Some (ActorAddress 12)"
    and h9: "map_of (neighbors ?s3) 2 = Some \<lparr>latency = 1, bandwidth = 10\<rparr>"
    and h10: "bandwidth \<lparr>latency = 1, bandwidth = 10\<rparr> \<noteq> 0"
    by (simp_all add: example_q_eq)
  show ?thesis
    using forward_on_alive_link [OF h1 h2 h3 h4 h5 h6 h7 h8 h9 h10 refl refl refl]
    by (simp add: example_q_eq example_pkg_def)
qed

subsection \<open>Delivery at the destination\<close>

text \<open>
  Claim C4. An initialized router handles a ProcessPkgEvent whose package is for the
  router itself (\<open>receivePackage\<close> being the one of Router or the one of QRouter):
  processing returns, it hands exactly one report to the actor system, a PkgDoneMsg to the
  overlord with the current time and the package, it sends no packet event to any
  neighbor, and it leaves its event queue and its link states as they were.
\<close>

theorem completion_report_at_destination:
  assumes "isInitialized H s" and "addr s = Some (dst pkg0)"
    and "receivePackage H = receivePackage Router_strategy \<or>
         receivePackage H = receivePackage SimpleQRouter_strategy"
    and "s1 = snd (receivePackage H (ProcessPkgEvent t sender pkg0) s)"
    and "pkg = trace_package H pkg0 s1"
    and "done = Send (overlord s) (PkgDoneMsg (current_time s) (myAddress s) pkg)"
  shows "\<exists>s'. processEvent H (ProcessPkgEvent t sender pkg0) s = (Returned (), s') \<and>
           sent s' = sent s1 @ [done] \<and>
           filter is_report (sent s') = filter is_report (sent s) @ [done] \<and>
           filter is_packet_event (sent s') = filter is_packet_event (sent s) \<and>
           event_queue s' = event_queue s \<and> link_states s' = link_states s"
proof -
  have r: "receivePackage H (ProcessPkgEvent t sender pkg0) s = (Returned (), s1) \<and>
           (\<exists>rewards. sent s1 = sent s @ map (SendServiceMsg sender) rewards) \<and>
           event_queue s1 = event_queue s \<and> link_states s1 = link_states s \<and>
           addr s1 = addr s \<and> overlord s1 = overlord s \<and> current_time s1 = current_time s \<and>
           myAddress s1 = myAddress s"
    using assms(3)
  proof
    assume "receivePackage H = receivePackage Router_strategy"
    with assms(4) show ?thesis by (simp add: Router_strategy_def)
  next
    assume "receivePackage H = receivePackage SimpleQRouter_strategy"
    with assms(2,4) show ?thesis
      apply (simp add: SimpleQRouter_strategy_def QRouter_receivePackage_def
          SimpleQRouter_mkRewardMsg_def bind_def sendServiceMsg_def)
      apply (rule exI [of _ "[SimpleRewardMsg (pkg_id pkg0) (current_time s) 0 (dst pkg0)]"])
      apply simp
      done
  qed
  then obtain rewards where rw: "sent s1 = sent s @ map (SendServiceMsg sender) rewards"
    by blast
  have d: "dst pkg = dst pkg0"
    using assms(5) by (simp add: trace_package_def route_add_def)
  have "processEvent H (ProcessPkgEvent t sender pkg0) s =
          (Returned (), s1\<lparr>printed := printed s1 @ [RoutesPackage (addr s1) (dst pkg)],
                          sent := sent s1 @ [done]\<rparr>)"
    using assms(1,2,5,6) r d
    by (simp add: processEvent_def bind_def reportPkgDone_def Let_def)
  moreover have "filter is_report (map (SendServiceMsg sender) rewards) = []"
    "filter is_packet_event (map (SendServiceMsg sender) rewards) = []"
    by (induction rewards) simp_all
  ultimately show ?thesis
    using r rw assms(6) by simp
qed

text \<open>
  Node 1 of the example receives a package for itself from node 0: one reward message
  back to node 0, then the one report to the overlord.
\<close>

theorem completion_report_at_destination_witness:
  "\<exists>s'. processEvent SimpleQRouter_strategy (ProcessPkgEvent 0 (ActorAddress 10) home_pkg) example_q
            = (Returned (), s') \<and>
        sent s' = [SendServiceMsg (ActorAddress 10) (SimpleRewardMsg 8 0 0 1),
                   Send (Some (ActorAddress 100)) (PkgDoneMsg 0 (ActorAddress 11) home_traced)] \<and>
        filter is_report (sent s') =
          [Send (Some (ActorAddress 100)) (PkgDoneMsg 0 (ActorAddress 11) home_traced)] \<and>
        filter is_packet_event (sent s') = [] \<and>
        event_queue s' = [] \<and> link_states s' = link_states example_q"
proof -
  let ?s1 = "example_q\<lparr>sent := [SendServiceMsg (ActorAddress 10) (SimpleRewardMsg 8 0 0 1)]\<rparr>"
  have h1: "isInitialized SimpleQRouter_strategy example_q"
    by (simp add: SimpleQRouter_strategy_def Router_isInitialized_def example_q_eq)
  have h2: "addr example_q = Some (dst home_pkg)"
    by (simp add: example_q_eq home_pkg_def)
  have h3: "receivePackage SimpleQRouter_strategy = receivePackage Router_strategy \<or>
            receivePackage SimpleQRouter_strategy = receivePackage SimpleQRouter_strategy"
    by simp
  have h4: "?s1 = snd (receivePackage SimpleQRouter_strategy (ProcessPkgEvent 0 (ActorAddress 10) home_pkg) example_q)"
    by (simp add: SimpleQRouter_strategy_def QRouter_receivePackage_def SimpleQRouter_mkRewardMsg_def
        bind_def sendServiceMsg_def example_q_eq home_pkg_def)
  have h5: "home_traced = trace_package SimpleQRouter_strategy home_pkg ?s1"
    by (simp add: trace_package_def route_add_def home_traced_def example_q_eq home_pkg_def)
  show ?thesis
    using completion_report_at_destination [OF h1 h2 h3 h4 h5 refl]
    by (simp add: example_q_eq)
qed

subsection \<open>The transfer cursor of a link only advances\<close>

lemma links_advance_refl: "links_advance s s"
  by (simp add: links_advance_def)

lemma links_advance_trans: "links_advance s s' \<Longrightarrow> links_advance s' s'' \<Longrightarrow> links_advance s s''"
  unfolding links_advance_def by (meson order_trans)

lemma links_advance_eq: "link_states s' = link_states s \<Longrightarrow> links_advance s s'"
  by (simp add: links_advance_def)

lemma forwardPackage_advance:
  assumes "\<forall>nb \<in> snd ` set (neighbors s). 0 < bandwidth nb" and "0 \<le> pkg_size pkg"
  shows "links_advance s (snd (forwardPackage n pkg s))"
proof (cases "map_of (network s) n")
  case None
  then show ?thesis by (simp add: forwardPackage_def bind_def getitem_def links_advance_refl)
next
  case (Some target)
  note tg = this
  show ?thesis
  proof (cases "map_of (neighbors s) n")
    case None
    with tg show ?thesis by (simp add: forwardPackage_def bind_def getitem_def links_advance_refl)
  next
    case (Some nb)
    note nb = this
    then have "(n, nb) \<in> set (neighbors s)" by (rule map_of_SomeD)
    then have "nb \<in> snd ` set (neighbors s)" by force
    with assms(1) have bw: "0 < bandwidth nb" by blast
    show ?thesis
    proof (cases "map_of (link_states s) n")
      case None
      with tg nb show ?thesis by (simp add: forwardPackage_def bind_def getitem_def links_advance_refl)
    next
      case (Some ls)
      have "0 \<le> pkg_size pkg / bandwidth nb" using bw assms(2) by simp
      then have "transfer_time ls \<le> max (current_time s) (transfer_time ls) + pkg_size pkg / bandwidth nb"
        by linarith
      with tg nb Some bw show ?thesis
        by (simp add: forwardPackage_def bind_def getitem_def Let_def links_advance_def update_conv')
    qed
  qed
qed

lemma set_alive_advance: "links_advance s (snd (set_alive n b s))"
  by (simp add: set_alive_def bind_def getitem_def links_advance_def update_conv' split: option.split)

lemma bind_cases:
  obtains e s' where "m s = (Raised e, s')" and "bind m f s = (Raised e, s')"
  | x s' where "m s = (Returned x, s')" and "bind m f s = f x s'"
proof (cases "m s")
  case (Pair r s')
  then show ?thesis using that by (cases r) (simp_all add: bind_def)
qed

text \<open>
  Claim C9. Handling an event (IncomingPkgEvent, ProcessPkgEvent, LinkBreakMsg,
  LinkRestoreMsg or any other, whether it returns or raises) keeps every link and does
  not move its \<open>transfer_time\<close> backwards, when the package of the event has a
  non-negative size and every bandwidth of the neighbor table is positive. The methods a
  subclass overrides are only asked to leave \<open>link_states\<close> and \<open>neighbors\<close> alone.
\<close>

theorem transfer_time_monotone:
  assumes "keeps_links (receivePackage H)"
    and "keeps_links (routePackage H)"
    and "keeps_links (sendToBrokenLink H)"
    and "keeps_links (breakLink H)"
    and "keeps_links (restoreLink H)"
    and bw: "\<forall>nb \<in> snd ` set (neighbors s). 0 < bandwidth nb"
    and sz: "\<forall>pkg. getContents ev = Some pkg \<longrightarrow> 0 \<le> pkg_size pkg"
  shows "links_advance s (snd (processEvent H ev s))"
proof (cases "isInitialized H s")
  case False
  then show ?thesis by (simp add: processEvent_def links_advance_refl)
next
  case init: True
  note hk = assms(1-5) [unfolded keeps_links_def, rule_format]
  show ?thesis
  proof (cases ev)
    case (IncomingPkgEvent t sender pkg)
    with init show ?thesis by (simp add: processEvent_def Let_def links_advance_def)
  next
    case (ProcessPkgEvent t sender pkg0)
    with sz have sz0: "0 \<le> pkg_size pkg0" by simp
    let ?k = "\<lambda>(_::unit) s1.
            let pkg = trace_package H pkg0 s1;
                s2 = s1\<lparr>printed := printed s1 @ [RoutesPackage (addr s1) (dst pkg)]\<rparr>
            in if Some (dst pkg) = addr s2 then reportPkgDone pkg (current_time s2) s2
               else bind (routePackage H pkg) (\<lambda>best_neighbor.
                      case best_neighbor of
                        None \<Rightarrow> (\<lambda>s3. (Raised KeyError, s3))
                      | Some bn \<Rightarrow>
                          bind (\<lambda>s3. getitem (link_states s3) bn s3) (\<lambda>ls.
                            if alive ls then forwardPackage bn pkg
                            else sendToBrokenLink H pkg)) s2"
    have pe: "processEvent H ev s = bind (receivePackage H ev) ?k s"
      using init ProcessPkgEvent by (simp add: processEvent_def)
    show ?thesis
    proof (cases rule: bind_cases [of "receivePackage H ev" s ?k])
      case (1 e s1)
      have "link_states s1 = link_states s" using hk(1) [of ev s] 1(1) by simp
      then show ?thesis using pe 1(2) by (simp add: links_advance_eq)
    next
      case (2 x s1)
      have l1: "link_states s1 = link_states s" "neighbors s1 = neighbors s"
        using hk(1) [of ev s] 2(1) by simp_all
      define pkg where "pkg = trace_package H pkg0 s1"
      have szp: "0 \<le> pkg_size pkg" using sz0 by (simp add: pkg_def trace_package_def route_add_def)
      define s2 where "s2 = s1\<lparr>printed := printed s1 @ [RoutesPackage (addr s1) (dst pkg)]\<rparr>"
      have l2: "link_states s2 = link_states s" "neighbors s2 = neighbors s"
        using l1 by (simp_all add: s2_def)
      let ?k2 = "\<lambda>best_neighbor.
                      case best_neighbor of
                        None \<Rightarrow> (\<lambda>s3. (Raised KeyError, s3))
                      | Some bn \<Rightarrow>
                          bind (\<lambda>s3. getitem (link_states s3) bn s3) (\<lambda>ls.
                            if alive ls then forwardPackage bn pkg
                            else sendToBrokenLink H pkg)"
      have pe1: "processEvent H ev s = ?k x s1"
        using pe 2(2) by (simp only:)
      have k: "?k x s1 = (if Some (dst pkg) = addr s2 then reportPkgDone pkg (current_time s2) s2
                          else bind (routePackage H pkg) ?k2 s2)"
        unfolding pkg_def s2_def by (simp add: Let_def)
      show ?thesis
      proof (cases "Some (dst pkg) = addr s2")
        case True
        have "processEvent H ev s = reportPkgDone pkg (current_time s2) s2"
          using True by (simp only: pe1 k if_True simp_thms)
        then show ?thesis using l2 by (simp add: reportPkgDone_def links_advance_eq)
      next
        case False
        have pe2: "processEvent H ev s = bind (routePackage H pkg) ?k2 s2"
          using False by (simp only: pe1 k if_False simp_thms)
        show ?thesis
        proof (cases rule: bind_cases [of "routePackage H pkg" s2 ?k2])
          case (1 e s3)
          have "link_states s3 = link_states s" using hk(2) [of pkg s2] 1(1) l2 by simp
          then show ?thesis using pe2 1(2) by (simp add: links_advance_eq)
        next
          case (2 best s3)
          have l3: "link_states s3 = link_states s" "neighbors s3 = neighbors s"
            using hk(2) [of pkg s2] 2(1) l2 by simp_all
          show ?thesis
          proof (cases best)
            case None
            with 2(2) pe2 l3 show ?thesis by (simp add: links_advance_eq)
          next
            case (Some bn)
            note best = this
            show ?thesis
            proof (cases "map_of (link_states s3) bn")
              case None
              with 2(2) best pe2 l3 show ?thesis
                by (simp add: bind_def getitem_def links_advance_eq)
            next
              case (Some ls)
              show ?thesis
              proof (cases "alive ls")
                case True
                have "links_advance s3 (snd (forwardPackage bn pkg s3))"
                  using bw szp l3 by (intro forwardPackage_advance) simp_all
                then have "links_advance s (snd (forwardPackage bn pkg s3))"
                  using l3 by (simp add: links_advance_def)
                with 2(2) best Some True pe2 show ?thesis
                  by (simp add: bind_def getitem_def)
              next
                case False
                have "link_states (snd (sendToBrokenLink H pkg s3)) = link_states s"
                  using hk(3) [of pkg s3] l3 by simp
                with 2(2) best Some False pe2 show ?thesis
                  by (simp add: bind_def getitem_def links_advance_eq)
              qed
            qed
          qed
        qed
      qed
    qed
  next
    case (LinkBreakMsg n)
    have pe: "processEvent H ev s = bind (set_alive n False) (\<lambda>_. breakLink H n) s"
      using init LinkBreakMsg by (simp add: processEvent_def)
    show ?thesis
    proof (cases rule: bind_cases [of "set_alive n False" s "\<lambda>_. breakLink H n"])
      case (1 e s1)
      then show ?thesis using pe set_alive_advance [of s n False] by simp
    next
      case (2 x s1)
      have "link_states (snd (breakLink H n s1)) = link_states s1"
        using hk(4) by simp
      then have "links_advance s1 (snd (breakLink H n s1))"
        by (rule links_advance_eq)
      moreover have "links_advance s s1" using set_alive_advance [of s n False] 2(1) by simp
      ultimately show ?thesis using 2(2) pe
        by (auto intro: links_advance_trans)
    qed
  next
    case (LinkRestoreMsg n)
    have pe: "processEvent H ev s = bind (set_alive n True) (\<lambda>_. restoreLink H n) s"
      using init LinkRestoreMsg by (simp add: processEvent_def)
    show ?thesis
    proof (cases rule: bind_cases [of "set_alive n True" s "\<lambda>_. restoreLink H n"])
      case (1 e s1)
      then show ?thesis using pe set_alive_advance [of s n True] by simp
    next
      case (2 x s1)
      have "link_states (snd (restoreLink H n s1)) = link_states s1"
        using hk(5) by simp
      then have "links_advance s1 (snd (restoreLink H n s1))"
        by (rule links_advance_eq)
      moreover have "links_advance s s1" using set_alive_advance [of s n True] 2(1) by simp
      ultimately show ?thesis using 2(2) pe
        by (auto intro: links_advance_trans)
    qed
  next
    case OtherEvent
    with init show ?thesis by (simp add: processEvent_def links_advance_refl)
  qed
qed

text \<open>The methods of SimpleQRouter leave the link states and the neighbor table alone.\<close>

lemma keeps_links_pass: "keeps_links (\<lambda>x s. (Returned y, s))"
  by (simp add: keeps_links_def)

lemma keeps_links_receivePackage: "keeps_links (QRouter_receivePackage SimpleQRouter_mkRewardMsg)"
  by (simp add: keeps_links_def QRouter_receivePackage_def SimpleQRouter_mkRewardMsg_def bind_def
      getitem_def dict_min_def sendServiceMsg_def Let_def split: option.split list.split)

lemma keeps_links_routePackage: "keeps_links QRouter_routePackage"
  by (simp add: keeps_links_def QRouter_routePackage_def SimpleQRouter_act_def bind_def
      getitem_def dict_min_def Let_def split: option.split list.split)

lemma breakLink_loop_links:
  "link_states (snd (breakLink_loop v ns acc s)) = link_states s \<and>
   neighbors (snd (breakLink_loop v ns acc s)) = neighbors s"
  by (induction ns arbitrary: acc s) (simp_all split: option.split)

lemma restoreLink_loop_links:
  "link_states (snd (restoreLink_loop v st s)) = link_states s \<and>
   neighbors (snd (restoreLink_loop v st s)) = neighbors s"
  by (induction st arbitrary: s) (auto split: option.split)

lemma keeps_links_breakLink: "keeps_links SimpleQRouter_breakLink"
  unfolding keeps_links_def SimpleQRouter_breakLink_def
proof (intro allI)
  fix v and s :: "'a simple_q_router_scheme"
  obtain r s' where l: "breakLink_loop v (keys (network s)) [] s = (r, s')"
    by (cases "breakLink_loop v (keys (network s)) [] s")
  with breakLink_loop_links [of v "keys (network s)" "[]" s]
  have "link_states s' = link_states s \<and> neighbors s' = neighbors s" by simp
  with l show "link_states (snd (bind (breakLink_loop v (keys (network s)) [])
                  (\<lambda>broken_Qs s'. (Returned (), s'\<lparr>broken_link_Qs := AList.update v broken_Qs (broken_link_Qs s')\<rparr>)) s))
                = link_states s \<and>
        neighbors (snd (bind (breakLink_loop v (keys (network s)) [])
                  (\<lambda>broken_Qs s'. (Returned (), s'\<lparr>broken_link_Qs := AList.update v broken_Qs (broken_link_Qs s')\<rparr>)) s))
                = neighbors s"
    by (cases r) (simp_all add: bind_def)
qed

lemma keeps_links_restoreLink: "keeps_links SimpleQRouter_restoreLink"
  unfolding keeps_links_def SimpleQRouter_restoreLink_def
proof (intro allI)
  fix v and s :: "'a simple_q_router_scheme"
  show "link_states (snd (bind (\<lambda>s. getitem (broken_link_Qs s) v s)
            (\<lambda>broken_Qs. bind (restoreLink_loop v broken_Qs)
               (\<lambda>_ s. (Returned (), s\<lparr>broken_link_Qs := AList.delete v (broken_link_Qs s)\<rparr>))) s))
          = link_states s \<and>
        neighbors (snd (bind (\<lambda>s. getitem (broken_link_Qs s) v s)
            (\<lambda>broken_Qs. bind (restoreLink_loop v broken_Qs)
               (\<lambda>_ s. (Returned (), s\<lparr>broken_link_Qs := AList.delete v (broken_link_Qs s)\<rparr>))) s))
          = neighbors s"
  proof (cases "map_of (broken_link_Qs s) v")
    case None
    then show ?thesis by (simp add: bind_def getitem_def)
  next
    case (Some st)
    obtain r s' where l: "restoreLink_loop v st s = (r, s')"
      by (cases "restoreLink_loop v st s")
    with restoreLink_loop_links [of v st s]
    have "link_states s' = link_states s \<and> neighbors s' = neighbors s" by simp
    with l Some show ?thesis by (cases r) (simp_all add: bind_def getitem_def)
  qed
qed

text \<open>Node 1 of the example forwards a package: the cursor of the link to node 2 moves from 0 to 1/2.\<close>

theorem transfer_time_monotone_witness:
  "keeps_links (receivePackage SimpleQRouter_strategy) \<and>
   keeps_links (routePackage SimpleQRouter_strategy) \<and>
   keeps_links (sendToBrokenLink SimpleQRouter_strategy) \<and>
   keeps_links (breakLink SimpleQRouter_strategy) \<and>
   keeps_links (restoreLink SimpleQRouter_strategy) \<and>
   0 \<le> pkg_size example_pkg \<and>
   links_advance example_q
     (snd (processEvent SimpleQRouter_strategy (ProcessPkgEvent 0 (ActorAddress 10) example_pkg) example_q))"
proof -
  have hooks: "keeps_links (receivePackage SimpleQRouter_strategy)"
      "keeps_links (routePackage SimpleQRouter_strategy)"
      "keeps_links (sendToBrokenLink SimpleQRouter_strategy)"
      "keeps_links (breakLink SimpleQRouter_strategy)"
      "keeps_links (restoreLink SimpleQRouter_strategy)"
    by (simp_all add: SimpleQRouter_strategy_def keeps_links_pass keeps_links_receivePackage
        keeps_links_routePackage keeps_links_breakLink keeps_links_restoreLink)
  have bw: "\<forall>nb \<in> snd ` set (neighbors example_q). 0 < bandwidth nb"
    by (simp add: example_q_eq)
  have sz: "\<forall>pkg. getContents (ProcessPkgEvent 0 (ActorAddress 10) example_pkg) = Some pkg \<longrightarrow> 0 \<le> pkg_size pkg"
    by (simp add: example_pkg_def)
  show ?thesis
    using hooks transfer_time_monotone [OF hooks bw sz] by (simp add: example_pkg_def)
qed

subsection \<open>Rounding to a double\<close>

lemma rhe_int: "round_half_even (of_int k) = k"
  by (simp add: round_half_even_def)

lemma rhe_mono:
  assumes "x \<le> y"
  shows "round_half_even x \<le> round_half_even y"
proof (cases "\<lfloor>x\<rfloor> = \<lfloor>y\<rfloor>")
  case True
  with assms show ?thesis by (auto simp: round_half_even_def Let_def)
next
  case False
  with assms have "\<lfloor>x\<rfloor> < \<lfloor>y\<rfloor>" by (simp add: floor_mono order.strict_iff_order)
  moreover have "round_half_even x \<le> \<lfloor>x\<rfloor> + 1" by (simp add: round_half_even_def Let_def)
  moreover have "\<lfloor>y\<rfloor> \<le> round_half_even y" by (simp add: round_half_even_def Let_def)
  ultimately show ?thesis by linarith
qed


lemma rhe_bounds:
  assumes "of_int a \<le> y" and "y \<le> of_int b"
  shows "a \<le> round_half_even y \<and> round_half_even y \<le> b"
  using rhe_mono [OF assms(1)] rhe_mono [OF assms(2)] by (simp add: rhe_int)

lemma round_pos_nonpos: "x \<le> 0 \<Longrightarrow> round_pos x = 0"
  by (simp add: round_pos.simps)

lemma round_pos_big: "2 ^ 53 \<le> x \<Longrightarrow> round_pos x = 2 * round_pos (x / 2)"
  by (subst round_pos.simps) simp

lemma round_pos_small: "0 < x \<Longrightarrow> x < 2 ^ 52 \<Longrightarrow> round_pos x = round_pos (2 * x) / 2"
  by (subst round_pos.simps) simp

lemma round_pos_base:
  "2 ^ 52 \<le> x \<Longrightarrow> x < 2 ^ 53 \<Longrightarrow> round_pos x = of_int (round_half_even x)"
  by (subst round_pos.simps) simp

lemma round_pos_double:
  assumes "0 < x"
  shows "round_pos (2 * x) = 2 * round_pos x"
proof (cases "x < 2 ^ 52")
  case True
  with assms show ?thesis by (simp add: round_pos_small)
next
  case False
  then have "2 ^ 53 \<le> 2 * x" by simp
  then show ?thesis by (simp add: round_pos_big)
qed

lemma round_pos_half: "0 < x \<Longrightarrow> round_pos (x / 2) = round_pos x / 2"
  using round_pos_double [of "x / 2"] by simp

lemma two_pow_of_int: "(2 ^ n :: real) = of_int (2 ^ n)"
  by simp

lemma rhe_binade:
  assumes "2 ^ 52 \<le> x" and "x \<le> 2 ^ 53"
  shows "(2 ^ 52 :: real) \<le> of_int (round_half_even x) \<and> of_int (round_half_even x) \<le> (2 ^ 53 :: real)"
proof -
  have a: "of_int (2 ^ 52) \<le> x" using assms(1) by (simp only: two_pow_of_int [symmetric])
  have b: "x \<le> of_int (2 ^ 53)" using assms(2) by (simp only: two_pow_of_int [symmetric])
  from rhe_bounds [OF a b]
  have "(2 ^ 52 :: int) \<le> round_half_even x" and "round_half_even x \<le> (2 ^ 53 :: int)"
    by blast+
  then have "(of_int (2 ^ 52) :: real) \<le> of_int (round_half_even x)"
    and "(of_int (round_half_even x) :: real) \<le> of_int (2 ^ 53)"
    by (simp_all only: of_int_le_iff)
  then show ?thesis by (simp only: two_pow_of_int [symmetric])
qed

lemma round_pos_ge:
  "2 ^ 52 \<le> x \<Longrightarrow> 2 ^ 52 \<le> round_pos x"
proof (induction x rule: round_pos.induct)
  case (1 x)
  have pos: "\<not> x \<le> 0" using 1(3) by (smt (verit) zero_less_power)
  show ?case
  proof (cases "2 ^ 53 \<le> x")
    case True
    then have "2 ^ 52 \<le> x / 2" by simp
    then have "2 ^ 52 \<le> round_pos (x / 2)" by (rule 1(1) [OF pos True])
    moreover have "round_pos x = 2 * round_pos (x / 2)" using True by (rule round_pos_big)
    ultimately show ?thesis by simp
  next
    case False
    then have hi: "x < 2 ^ 53" by simp
    have "round_pos x = of_int (round_half_even x)" using 1(3) hi by (rule round_pos_base)
    moreover have "(2 ^ 52 :: real) \<le> of_int (round_half_even x)"
      using rhe_binade [of x] 1(3) hi by simp
    ultimately show ?thesis by (simp only:)
  qed
qed

lemma round_pos_le:
  assumes "2 ^ 52 \<le> x" and "x < 2 ^ 53"
  shows "round_pos x \<le> 2 ^ 53"
proof -
  have "round_pos x = of_int (round_half_even x)" using assms by (rule round_pos_base)
  moreover have "of_int (round_half_even x) \<le> (2 ^ 53 :: real)"
    using rhe_binade [of x] assms by simp
  ultimately show ?thesis by (simp only:)
qed

lemma round_pos_nonneg: "0 \<le> round_pos x"
proof (induction x rule: round_pos.induct)
  case (1 x)
  show ?case
  proof (cases "x \<le> 0")
    case True
    then have "round_pos x = 0" by (rule round_pos_nonpos)
    then show ?thesis by simp
  next
    case pos: False
    show ?thesis
    proof (cases "2 ^ 53 \<le> x")
      case True
      have "0 \<le> round_pos (x / 2)" by (rule 1(1) [OF pos True])
      moreover have "round_pos x = 2 * round_pos (x / 2)" using True by (rule round_pos_big)
      ultimately show ?thesis by linarith
    next
      case nb: False
      show ?thesis
      proof (cases "x < 2 ^ 52")
        case True
        have xp: "0 < x" using pos by simp
        have "0 \<le> round_pos (2 * x)" by (rule 1(2) [OF pos nb True])
        moreover have "round_pos x = round_pos (2 * x) / 2" using xp True by (rule round_pos_small)
        ultimately show ?thesis by linarith
      next
        case False
        then have "2 ^ 52 \<le> x" by simp
        then have "2 ^ 52 \<le> round_pos x" by (rule round_pos_ge)
        moreover have "(0 :: real) \<le> 2 ^ 52" by simp
        ultimately show ?thesis by (rule order_trans [rotated])
      qed
    qed
  qed
qed

lemma round_pos_pos: "0 < x \<Longrightarrow> 0 < round_pos x"
proof (induction x rule: round_pos.induct)
  case (1 x)
  have pos: "\<not> x \<le> 0" using 1(3) by simp
  show ?case
  proof (cases "2 ^ 53 \<le> x")
    case True
    have "0 < x / 2" using 1(3) by simp
    then have "0 < round_pos (x / 2)" by (rule 1(1) [OF pos True])
    moreover have "round_pos x = 2 * round_pos (x / 2)" using True by (rule round_pos_big)
    ultimately show ?thesis by linarith
  next
    case nb: False
    show ?thesis
    proof (cases "x < 2 ^ 52")
      case True
      have "0 < 2 * x" using 1(3) by simp
      then have "0 < round_pos (2 * x)" by (rule 1(2) [OF pos nb True])
      moreover have "round_pos x = round_pos (2 * x) / 2" using 1(3) True by (rule round_pos_small)
      ultimately show ?thesis by linarith
    next
      case False
      then have "2 ^ 52 \<le> x" by simp
      then have "2 ^ 52 \<le> round_pos x" by (rule round_pos_ge)
      moreover have "(0 :: real) < 2 ^ 52" by simp
      ultimately show ?thesis by (rule less_le_trans [rotated])
    qed
  qed
qed

lemma round_pos_mono: "x \<le> y \<Longrightarrow> round_pos x \<le> round_pos y"
proof (induction x arbitrary: y rule: round_pos.induct)
  case (1 x)
  show ?case
  proof (cases "x \<le> 0")
    case True
    then have "round_pos x = 0" by (rule round_pos_nonpos)
    moreover have "0 \<le> round_pos y" by (rule round_pos_nonneg)
    ultimately show ?thesis by (simp only:)
  next
    case pos: False
    then have xp: "0 < x" by simp
    then have yp: "0 < y" using 1(3) by simp
    show ?thesis
    proof (cases "2 ^ 53 \<le> x")
      case True
      have "x / 2 \<le> y / 2" using 1(3) by simp
      then have "round_pos (x / 2) \<le> round_pos (y / 2)" by (rule 1(1) [OF pos True])
      moreover have "round_pos (x / 2) = round_pos x / 2" using xp by (rule round_pos_half)
      moreover have "round_pos (y / 2) = round_pos y / 2" using yp by (rule round_pos_half)
      ultimately show ?thesis by linarith
    next
      case nb: False
      show ?thesis
      proof (cases "x < 2 ^ 52")
        case True
        have "2 * x \<le> 2 * y" using 1(3) by simp
        then have "round_pos (2 * x) \<le> round_pos (2 * y)" by (rule 1(2) [OF pos nb True])
        moreover have "round_pos (2 * x) = 2 * round_pos x" using xp by (rule round_pos_double)
        moreover have "round_pos (2 * y) = 2 * round_pos y" using yp by (rule round_pos_double)
        ultimately show ?thesis by linarith
      next
        case False
        then have lo: "2 ^ 52 \<le> x" by simp
        have hi: "x < 2 ^ 53" using nb by simp
        show ?thesis
        proof (cases "y < 2 ^ 53")
          case True
          have ylo: "2 ^ 52 \<le> y" using lo 1(3) by (rule order_trans)
          have "round_pos x = of_int (round_half_even x)" using lo hi by (rule round_pos_base)
          moreover have "round_pos y = of_int (round_half_even y)" using ylo True by (rule round_pos_base)
          moreover have "round_half_even x \<le> round_half_even y" using 1(3) by (rule rhe_mono)
          ultimately show ?thesis by (simp only: of_int_le_iff)
        next
          case False
          then have big: "2 ^ 53 \<le> y" by simp
          then have "2 ^ 52 \<le> y / 2" by simp
          then have "2 ^ 52 \<le> round_pos (y / 2)" by (rule round_pos_ge)
          moreover have "round_pos y = 2 * round_pos (y / 2)" using big by (rule round_pos_big)
          ultimately have "2 ^ 53 \<le> round_pos y" by simp
          with round_pos_le [OF lo hi] show ?thesis by (rule order_trans)
        qed
      qed
    qed
  qed
qed

lemma round_pos_idem: "round_pos (round_pos x) = round_pos x"
proof (induction x rule: round_pos.induct)
  case (1 x)
  show ?case
  proof (cases "x \<le> 0")
    case True
    then have e: "round_pos x = 0" by (rule round_pos_nonpos)
    have "round_pos 0 = 0" by (rule round_pos_nonpos) simp
    then show ?thesis by (simp only: e)
  next
    case pos: False
    show ?thesis
    proof (cases "2 ^ 53 \<le> x")
      case True
      have r: "0 < round_pos (x / 2)" using pos by (intro round_pos_pos) simp
      have e: "round_pos x = 2 * round_pos (x / 2)" using True by (rule round_pos_big)
      have "round_pos (2 * round_pos (x / 2)) = 2 * round_pos (round_pos (x / 2))"
        using r by (rule round_pos_double)
      also have "\<dots> = 2 * round_pos (x / 2)" by (simp only: 1(1) [OF pos True])
      finally show ?thesis by (simp only: e)
    next
      case nb: False
      show ?thesis
      proof (cases "x < 2 ^ 52")
        case True
        have xp: "0 < x" using pos by simp
        have r: "0 < round_pos (2 * x)" using pos by (intro round_pos_pos) simp
        have e: "round_pos x = round_pos (2 * x) / 2" using xp True by (rule round_pos_small)
        have "round_pos (round_pos (2 * x) / 2) = round_pos (round_pos (2 * x)) / 2"
          using r by (rule round_pos_half)
        also have "\<dots> = round_pos (2 * x) / 2" by (simp only: 1(2) [OF pos nb True])
        finally show ?thesis by (simp only: e)
      next
        case False
        then have lo: "2 ^ 52 \<le> x" by simp
        have hi: "x < 2 ^ 53" using nb by simp
        define k where "k = round_half_even x"
        have rx: "round_pos x = of_int k" unfolding k_def using lo hi by (rule round_pos_base)
        have klo: "(2 ^ 52 :: real) \<le> of_int k" using round_pos_ge [OF lo] by (simp only: rx)
        have khi: "of_int k \<le> (2 ^ 53 :: real)" using round_pos_le [OF lo hi] by (simp only: rx)
        show ?thesis
        proof (cases "of_int k < (2 ^ 53 :: real)")
          case True
          with klo have "round_pos (of_int k) = of_int (round_half_even (of_int k))"
            by (rule round_pos_base)
          then have "round_pos (of_int k) = of_int k" by (simp only: rhe_int)
          then show ?thesis by (simp only: rx)
        next
          case False
          with khi have k: "of_int k = (2 ^ 53 :: real)" by (rule order_antisym [OF _ leI])
          have half: "(2 ^ 53 :: real) / 2 = 2 ^ 52" by simp
          have "round_pos (2 ^ 53) = 2 * round_pos (2 ^ 53 / 2)"
            by (rule round_pos_big) simp
          also have "\<dots> = 2 * round_pos (2 ^ 52)" by (simp only: half)
          also have "round_pos (2 ^ 52) = of_int (round_half_even (2 ^ 52))"
            by (rule round_pos_base) simp_all
          also have "round_half_even (2 ^ 52) = 2 ^ 52"
            using rhe_int [of "2 ^ 52"] by simp
          finally have "round_pos (2 ^ 53) = 2 ^ 53" by simp
          then show ?thesis by (simp only: rx k)
        qed
      qed
    qed
  qed
qed

lemma round_double_zero: "round_double 0 = 0"
proof -
  have "round_pos 0 = 0" by (rule round_pos_nonpos) simp
  then show ?thesis by (simp add: round_double_def)
qed

lemma round_double_mono: "mono round_double"
proof (rule monoI)
  fix x y :: real
  assume le: "x \<le> y"
  show "round_double x \<le> round_double y"
  proof (cases "x < 0")
    case xn: True
    show ?thesis
    proof (cases "y < 0")
      case True
      have "- y \<le> - x" using le by simp
      then have "round_pos (- y) \<le> round_pos (- x)" by (rule round_pos_mono)
      with xn True show ?thesis by (simp add: round_double_def)
    next
      case False
      have "- round_pos (- x) \<le> 0" using round_pos_nonneg [of "- x"] by simp
      also have "0 \<le> round_pos y" by (rule round_pos_nonneg)
      finally show ?thesis using xn False by (simp add: round_double_def)
    qed
  next
    case False
    with le have "\<not> y < 0" by simp
    with False round_pos_mono [OF le] show ?thesis by (simp add: round_double_def)
  qed
qed

lemma round_double_idem: "round_double (round_double x) = round_double x"
proof (cases "x < 0")
  case True
  then have p: "0 < round_pos (- x)" by (intro round_pos_pos) simp
  then have "- round_pos (- x) < 0" by simp
  then show ?thesis using True by (simp add: round_double_def round_pos_idem)
next
  case False
  have "\<not> round_pos x < 0" using round_pos_nonneg [of x] by simp
  with False show ?thesis by (simp add: round_double_def round_pos_idem)
qed

subsection \<open>A link is a single-server queue\<close>

lemma forwardPackage_float_exact: "forwardPackage_float (\<lambda>x. x) = forwardPackage"
  by (simp add: forwardPackage_float_def forwardPackage_def fun_eq_iff)

lemma forwardPackage_float_ReturnedD:
  assumes "forwardPackage_float rnd n pkg s = (Returned (), s')"
  shows "\<exists>target nb ls. map_of (network s) n = Some target \<and> map_of (neighbors s) n = Some nb \<and>
           map_of (link_states s) n = Some ls \<and> bandwidth nb \<noteq> 0 \<and>
           map_of (link_states s') n =
             Some (ls\<lparr>transfer_time :=
               rnd (max (current_time s) (transfer_time ls) + rnd (pkg_size pkg / bandwidth nb))\<rparr>) \<and>
           last (sent s') =
             SendEvent target (IncomingPkgEvent
               (rnd (rnd (max (current_time s) (transfer_time ls) + rnd (pkg_size pkg / bandwidth nb))
                     + latency nb))
               (myAddress s) pkg)"
  using assms
  by (auto simp: forwardPackage_float_def bind_def getitem_def Let_def update_conv'
      split: option.splits if_splits)

text \<open>
  Claim C3, as amended. Two packages are forwarded one after the other onto the same
  link, nothing touching the link in between; the bandwidth is positive and the second
  package has a non-negative size. The arithmetic is the code's: every sum and quotient
  is rounded, by any rounding that is monotone and fixes 0 and its own results (that of
  doubles is one). Then the finish times satisfy \<open>f1 \<le> f2\<close>; the cursor of the link is
  serialized, transferEnd2 being at least the rounded transferEnd1 + size2 / bandwidth;
  and \<open>f2\<close> is at least that bound plus the latency, rounded. The inequality
  \<open>f1 + size2 / bandwidth \<le> f2\<close> of the claim follows when the arithmetic is exact.
\<close>

theorem no_overtaking_in_floats:
  assumes mono: "mono rnd" and zero: "rnd 0 = 0" and idem: "\<And>x. rnd (rnd x) = rnd x"
    and fw1: "forwardPackage_float rnd n pkg1 s = (Returned (), s1)"
    and fw2: "forwardPackage_float rnd n pkg2 s2 = (Returned (), s3)"
    and same_link: "map_of (link_states s2) n = map_of (link_states s1) n"
    and same_params: "map_of (neighbors s2) n = map_of (neighbors s) n"
    and ev1: "last (sent s1) = SendEvent target1 (IncomingPkgEvent f1 me1 p1)"
    and ev2: "last (sent s3) = SendEvent target2 (IncomingPkgEvent f2 me2 p2)"
    and l1: "map_of (link_states s1) n = Some ls1"
    and l3: "map_of (link_states s3) n = Some ls3"
    and nb: "map_of (neighbors s) n = Some nb" and bw: "0 < bandwidth nb"
    and sz: "0 \<le> pkg_size pkg2"
  shows "f1 \<le> f2 \<and>
         rnd (transfer_time ls1 + rnd (pkg_size pkg2 / bandwidth nb)) \<le> transfer_time ls3 \<and>
         rnd (rnd (transfer_time ls1 + rnd (pkg_size pkg2 / bandwidth nb)) + latency nb) \<le> f2 \<and>
         f1 = rnd (transfer_time ls1 + latency nb) \<and>
         ((\<forall>x. rnd x = x) \<longrightarrow> f1 + pkg_size pkg2 / bandwidth nb \<le> f2)"
proof -
  from forwardPackage_float_ReturnedD [OF fw1]
  obtain tg nb' ls where a: "map_of (neighbors s) n = Some nb'"
    and b: "map_of (link_states s1) n =
             Some (ls\<lparr>transfer_time :=
               rnd (max (current_time s) (transfer_time ls) + rnd (pkg_size pkg1 / bandwidth nb'))\<rparr>)"
    and c: "last (sent s1) =
             SendEvent tg (IncomingPkgEvent
               (rnd (rnd (max (current_time s) (transfer_time ls) + rnd (pkg_size pkg1 / bandwidth nb'))
                     + latency nb'))
               (myAddress s) pkg1)"
    by blast
  have nb': "nb' = nb" using a nb by simp
  have e1: "transfer_time ls1 = rnd (max (current_time s) (transfer_time ls) + rnd (pkg_size pkg1 / bandwidth nb))"
    using b l1 nb' by auto
  have f1: "f1 = rnd (transfer_time ls1 + latency nb)"
    using c ev1 e1 nb' by simp
  define q2 where "q2 = rnd (pkg_size pkg2 / bandwidth nb)"
  from forwardPackage_float_ReturnedD [OF fw2]
  obtain tg2 nb2 ls2 where a2: "map_of (neighbors s2) n = Some nb2"
    and l2: "map_of (link_states s2) n = Some ls2"
    and b2: "map_of (link_states s3) n =
             Some (ls2\<lparr>transfer_time :=
               rnd (max (current_time s2) (transfer_time ls2) + rnd (pkg_size pkg2 / bandwidth nb2))\<rparr>)"
    and c2: "last (sent s3) =
             SendEvent tg2 (IncomingPkgEvent
               (rnd (rnd (max (current_time s2) (transfer_time ls2) + rnd (pkg_size pkg2 / bandwidth nb2))
                     + latency nb2))
               (myAddress s2) pkg2)"
    by blast
  have nb2: "nb2 = nb" using a2 same_params nb by simp
  have ls2: "ls2 = ls1" using l2 same_link l1 by simp
  have e3: "transfer_time ls3 = rnd (max (current_time s2) (transfer_time ls1) + q2)"
    using b2 l3 nb2 ls2 by (auto simp: q2_def)
  have f2: "f2 = rnd (transfer_time ls3 + latency nb)"
    using c2 ev2 e3 nb2 ls2 by (simp add: q2_def)
  have fix1: "rnd (transfer_time ls1) = transfer_time ls1"
    by (subst (1 2) e1) (rule idem)
  have "0 \<le> pkg_size pkg2 / bandwidth nb" using bw sz by simp
  then have "rnd 0 \<le> q2" unfolding q2_def by (rule monoD [OF mono])
  then have q2: "0 \<le> q2" by (simp add: zero)
  have "transfer_time ls1 + q2 \<le> max (current_time s2) (transfer_time ls1) + q2" by simp
  then have ser: "rnd (transfer_time ls1 + q2) \<le> transfer_time ls3"
    unfolding e3 by (rule monoD [OF mono])
  have "transfer_time ls1 \<le> max (current_time s2) (transfer_time ls1) + q2" using q2 by simp
  then have "rnd (transfer_time ls1) \<le> transfer_time ls3"
    unfolding e3 by (rule monoD [OF mono])
  then have adv: "transfer_time ls1 \<le> transfer_time ls3" by (simp only: fix1)
  then have "transfer_time ls1 + latency nb \<le> transfer_time ls3 + latency nb" by simp
  then have le: "f1 \<le> f2" unfolding f1 f2 by (rule monoD [OF mono])
  have "rnd (transfer_time ls1 + q2) + latency nb \<le> transfer_time ls3 + latency nb"
    using ser by simp
  then have fin: "rnd (rnd (transfer_time ls1 + q2) + latency nb) \<le> f2"
    unfolding f2 by (rule monoD [OF mono])
  have exact: "f1 + pkg_size pkg2 / bandwidth nb \<le> f2" if "\<forall>x. rnd x = x"
    using fin f1 that by (simp add: q2_def)
  from le ser fin f1 exact show ?thesis by (simp add: q2_def)
qed

text \<open>
  Two packages of size 1 on the link of the example to node 2 (bandwidth 10, latency 1),
  in doubles: the first arrives at 1.1, the second at 1.2.
\<close>

lemma float_first_forward:
  "forwardPackage_float round_double 2 unit_pkg example_q = (Returned (), float_once)"
  by (simp add: forwardPackage_float_def bind_def getitem_def Let_def example_q_eq unit_pkg_def
      float_once_def round_double_def round_pos.simps round_half_even_def)

lemma float_second_forward:
  "forwardPackage_float round_double 2 unit_pkg2 float_once = (Returned (), float_twice)"
  by (simp add: forwardPackage_float_def bind_def getitem_def Let_def example_q_eq unit_pkg2_def
      float_once_def float_twice_def round_double_def round_pos.simps round_half_even_def)

theorem no_overtaking_in_floats_witness:
  "mono round_double \<and> round_double 0 = 0 \<and>
   forwardPackage_float round_double 2 unit_pkg example_q = (Returned (), float_once) \<and>
   forwardPackage_float round_double 2 unit_pkg2 float_once = (Returned (), float_twice) \<and>
   (4953959590107546 / 2 ^ 52 :: real) \<le> 5404319552844595 / 2 ^ 52 \<and>
   round_double (7205759403792794 / 2 ^ 56 + round_double (pkg_size unit_pkg2 / 10))
     \<le> 7205759403792794 / 2 ^ 55"
proof -
  have h6: "map_of (link_states float_once) 2 = map_of (link_states float_once) 2" by simp
  have h7: "map_of (neighbors float_once) 2 = map_of (neighbors example_q) 2"
    by (simp add: float_once_def)
  have h8: "last (sent float_once) =
      SendEvent (ActorAddress 12) (IncomingPkgEvent (4953959590107546 / 2 ^ 52) (ActorAddress 11) unit_pkg)"
    by (simp add: float_once_def)
  have h9: "last (sent float_twice) =
      SendEvent (ActorAddress 12) (IncomingPkgEvent (5404319552844595 / 2 ^ 52) (ActorAddress 11) unit_pkg2)"
    by (simp add: float_twice_def)
  have h10: "map_of (link_states float_once) 2 =
      Some \<lparr>transfer_time = 7205759403792794 / 2 ^ 56, alive = True\<rparr>"
    by (simp add: float_once_def)
  have h11: "map_of (link_states float_twice) 2 =
      Some \<lparr>transfer_time = 7205759403792794 / 2 ^ 55, alive = True\<rparr>"
    by (simp add: float_twice_def)
  have h12: "map_of (neighbors example_q) 2 = Some \<lparr>latency = 1, bandwidth = 10\<rparr>"
    by (simp add: example_q_eq)
  have h13: "0 < bandwidth \<lparr>latency = 1, bandwidth = 10\<rparr>" by simp
  have h14: "0 \<le> pkg_size unit_pkg2" by (simp add: unit_pkg2_def)
  from no_overtaking_in_floats [OF round_double_mono round_double_zero round_double_idem
      float_first_forward float_second_forward h6 h7 h8 h9 h10 h11 h12 h13 h14]
  have "(4953959590107546 / 2 ^ 52 :: real) \<le> 5404319552844595 / 2 ^ 52"
    and "round_double (7205759403792794 / 2 ^ 56 + round_double (pkg_size unit_pkg2 / 10))
           \<le> 7205759403792794 / 2 ^ 55"
    by simp_all
  with round_double_mono round_double_zero float_first_forward float_second_forward
  show ?thesis by blast
qed

text \<open>
  Claim C3 as stated fails on these two packages: the finish times the code computes are
  the doubles 1.1 (4953959590107546 / 2 ^ 52) and 1.2 (5404319552844595 / 2 ^ 52), and
  \<open>f1 + size2 / bandwidth\<close> exceeds \<open>f2\<close>, whether the sum is taken exactly or in
  doubles (where it is 1.2000000000000002).
\<close>

theorem rounding_gap_counterexample:
  "forwardPackage_float round_double 2 unit_pkg example_q = (Returned (), float_once) \<and>
   forwardPackage_float round_double 2 unit_pkg2 float_once = (Returned (), float_twice) \<and>
   sent float_twice =
     [SendEvent (ActorAddress 12) (IncomingPkgEvent (4953959590107546 / 2 ^ 52) (ActorAddress 11) unit_pkg),
      SendEvent (ActorAddress 12) (IncomingPkgEvent (5404319552844595 / 2 ^ 52) (ActorAddress 11) unit_pkg2)] \<and>
   \<not> (4953959590107546 / 2 ^ 52 + pkg_size unit_pkg2 / 10 \<le> (5404319552844595 / 2 ^ 52 :: real)) \<and>
   \<not> (round_double (4953959590107546 / 2 ^ 52 + round_double (pkg_size unit_pkg2 / 10))
         \<le> 5404319552844595 / 2 ^ 52)"
proof -
  have a: "\<not> (4953959590107546 / 2 ^ 52 + pkg_size unit_pkg2 / 10 \<le> (5404319552844595 / 2 ^ 52 :: real))"
    by (simp add: unit_pkg2_def)
  have b: "\<not> (round_double (4953959590107546 / 2 ^ 52 + round_double (pkg_size unit_pkg2 / 10))
         \<le> 5404319552844595 / 2 ^ 52)"
    by (simp add: unit_pkg2_def round_double_def round_pos.simps round_half_even_def)
  have c: "sent float_twice =
     [SendEvent (ActorAddress 12) (IncomingPkgEvent (4953959590107546 / 2 ^ 52) (ActorAddress 11) unit_pkg),
      SendEvent (ActorAddress 12) (IncomingPkgEvent (5404319552844595 / 2 ^ 52) (ActorAddress 11) unit_pkg2)]"
    by (simp add: float_twice_def)
  from float_first_forward float_second_forward a b c show ?thesis by blast
qed

subsection \<open>The reward protocol of SimpleQRouter\<close>

lemma min_item_fold: "snd (min_item best xs) = fold min (map snd xs) (snd best)"
proof (induction xs arbitrary: best)
  case Nil
  then show ?case by simp
next
  case (Cons x xs)
  have "snd (if snd x < snd best then x else best) = min (snd x) (snd best)"
    by (simp add: min_def)
  with Cons.IH [of "if snd x < snd best then x else best"] show ?case by simp
qed

lemma min_item_value: "snd (min_item best xs) = Min (insert (snd best) (snd ` set xs))"
proof -
  have "Min (set (snd best # map snd xs)) = fold min (map snd xs) (snd best)"
    by (rule Min.set_eq_fold)
  then show ?thesis by (simp add: min_item_fold)
qed

lemma dict_min_value:
  "row \<noteq> [] \<Longrightarrow> \<exists>k. dict_min row s = (Returned (k, Min (snd ` set row)), s)"
proof (cases row)
  case Nil
  assume "row \<noteq> []"
  with Nil show ?thesis by simp
next
  case (Cons x xs)
  have "min_item x xs = (fst (min_item x xs), Min (snd ` set row))"
    using min_item_value [of x xs] Cons by (simp add: prod_eq_iff)
  with Cons show ?thesis by (simp add: dict_min_def) metis
qed

text \<open>
  Claim C5. On receiving a forwarded package a SimpleQRouter sends back to its sender a
  SimpleRewardMsg with the package id, the receiver's current time, the destination, and
  the estimate: 0 when the receiver is the destination, otherwise the least of the
  receiver's Q-values for the destination. On a reward whose package id has a pending
  context, the sender replaces \<open>Q[dst][neighbor]\<close> by itself plus
  learningRate * (newEstimate - \<open>Q[dst][neighbor]\<close>), with
  newEstimate = receivedEstimate + (receiverTime - sentTime); nothing else changes.
\<close>

theorem reward_protocol:
  "(addr s = Some (dst pkg) \<longrightarrow>
      receivePackage SimpleQRouter_strategy (ProcessPkgEvent t sender pkg) s =
        (Returned (),
         s\<lparr>sent := sent s @ [SendServiceMsg sender
                               (SimpleRewardMsg (pkg_id pkg) (current_time s) 0 (dst pkg))]\<rparr>)) \<and>
   (addr s \<noteq> Some (dst pkg) \<and> map_of (Q s) (dst pkg) = Some row \<and> row \<noteq> [] \<longrightarrow>
      receivePackage SimpleQRouter_strategy (ProcessPkgEvent t sender pkg) s =
        (Returned (),
         s\<lparr>sent := sent s @ [SendServiceMsg sender
                               (SimpleRewardMsg (pkg_id pkg) (current_time s) (Min (snd ` set row)) (dst pkg))]\<rparr>)) \<and>
   (map_of (reward_pending s) pid = Some (sentTime, d0) \<and>
    map_of (network_inv s) rsender = Some neighbor \<and>
    map_of (Q s) d = Some qrow \<and> map_of qrow neighbor = Some q \<and>
    learning_rate s = Some learningRate \<and>
    newEstimate = receivedEstimate + (receiverTime - sentTime) \<longrightarrow>
      QRouter_receiveServiceMsg (SimpleRewardMsg pid receiverTime receivedEstimate d) rsender s =
        (Returned (),
         s\<lparr>Q := AList.update d (AList.update neighbor (q + learningRate * (newEstimate - q)) qrow) (Q s)\<rparr>))"
proof (intro conjI impI)
  assume "addr s = Some (dst pkg)"
  then show "receivePackage SimpleQRouter_strategy (ProcessPkgEvent t sender pkg) s =
        (Returned (),
         s\<lparr>sent := sent s @ [SendServiceMsg sender
                               (SimpleRewardMsg (pkg_id pkg) (current_time s) 0 (dst pkg))]\<rparr>)"
    by (simp add: SimpleQRouter_strategy_def QRouter_receivePackage_def SimpleQRouter_mkRewardMsg_def
        bind_def sendServiceMsg_def)
next
  assume a: "addr s \<noteq> Some (dst pkg) \<and> map_of (Q s) (dst pkg) = Some row \<and> row \<noteq> []"
  then obtain k where "dict_min row s = (Returned (k, Min (snd ` set row)), s)"
    using dict_min_value [of row s] by blast
  with a show "receivePackage SimpleQRouter_strategy (ProcessPkgEvent t sender pkg) s =
        (Returned (),
         s\<lparr>sent := sent s @ [SendServiceMsg sender
                               (SimpleRewardMsg (pkg_id pkg) (current_time s) (Min (snd ` set row)) (dst pkg))]\<rparr>)"
    by (simp add: SimpleQRouter_strategy_def QRouter_receivePackage_def SimpleQRouter_mkRewardMsg_def
        bind_def getitem_def sendServiceMsg_def)
next
  assume "map_of (reward_pending s) pid = Some (sentTime, d0) \<and>
    map_of (network_inv s) rsender = Some neighbor \<and>
    map_of (Q s) d = Some qrow \<and> map_of qrow neighbor = Some q \<and>
    learning_rate s = Some learningRate \<and>
    newEstimate = receivedEstimate + (receiverTime - sentTime)"
  then show "QRouter_receiveServiceMsg (SimpleRewardMsg pid receiverTime receivedEstimate d) rsender s =
        (Returned (),
         s\<lparr>Q := AList.update d (AList.update neighbor (q + learningRate * (newEstimate - q)) qrow) (Q s)\<rparr>)"
    by (simp add: QRouter_receiveServiceMsg_def SimpleQRouter_mkSample_def SimpleQRouter_observe_def
        bind_def getitem_def Let_def)
qed

text \<open>
  Node 1 of the example answers 0 for a package of its own, 40 for one to node 2; a reward
  0 stamped 1 from node 2, for a package sent at 0, moves \<open>Q[2][2]\<close> from 40 to 41/2.
\<close>

theorem reward_protocol_witness:
  "receivePackage SimpleQRouter_strategy (ProcessPkgEvent 0 (ActorAddress 10) home_pkg) example_q =
     (Returned (),
      example_q\<lparr>sent := [SendServiceMsg (ActorAddress 10) (SimpleRewardMsg 8 0 0 1)]\<rparr>) \<and>
   receivePackage SimpleQRouter_strategy (ProcessPkgEvent 0 (ActorAddress 10) example_pkg) example_q =
     (Returned (),
      example_q\<lparr>sent := [SendServiceMsg (ActorAddress 10) (SimpleRewardMsg 7 0 40 2)]\<rparr>) \<and>
   QRouter_receiveServiceMsg (SimpleRewardMsg 7 1 0 2) (ActorAddress 12) example_routed =
     (Returned (),
      example_routed\<lparr>Q := [(0, [(0, 40), (2, 100500)]), (1, [(0, 100500), (2, 100500)]),
                            (2, [(0, 100500), (2, 41/2)])]\<rparr>)"
proof -
  have a: "addr example_q = Some (dst home_pkg)"
    by (simp add: example_q_eq home_pkg_def)
  have b: "addr example_q \<noteq> Some (dst example_pkg) \<and>
           map_of (Q example_q) (dst example_pkg) = Some [(0, 100500), (2, 40)] \<and>
           [(0 :: nat, 100500), (2, 40 :: real)] \<noteq> []"
    by (simp add: example_q_eq example_pkg_def)
  have c: "map_of (reward_pending example_routed) 7 = Some (0, 2) \<and>
    map_of (network_inv example_routed) (ActorAddress 12) = Some 2 \<and>
    map_of (Q example_routed) 2 = Some [(0, 100500), (2, 40)] \<and>
    map_of [(0 :: nat, 100500), (2, 40 :: real)] 2 = Some 40 \<and>
    learning_rate example_routed = Some (1/2) \<and>
    (1::real) = 0 + (1 - 0)"
    by (simp add: example_routed_def example_q_eq)
  have m: "Min (snd ` set [(0::nat, 100500::real), (2, 40)]) = 40" by simp
  show ?thesis
    using a b c m
      reward_protocol [where s = example_q and pkg = home_pkg and t = 0 and sender = "ActorAddress 10"]
      reward_protocol [where s = example_q and pkg = example_pkg and t = 0 and sender = "ActorAddress 10"
          and row = "[(0, 100500), (2, 40)]"]
      reward_protocol [where s = example_routed and pid = 7 and sentTime = 0 and ?d0.0 = 2
          and rsender = "ActorAddress 12" and neighbor = 2 and d = 2
          and qrow = "[(0, 100500), (2, 40)]" and q = 40 and learningRate = "1/2"
          and newEstimate = 1 and receivedEstimate = 0 and receiverTime = 1]
    by (simp add: example_q_eq example_pkg_def home_pkg_def example_routed_def)
qed

subsection \<open>A reward without pending context\<close>

text \<open>
  After the KeyError is caught and the line printed, \<open>prev_state\<close> is still the integer
  0 and the sample is built from it: whatever the reward message, the call raises. The
  state keeps the printed line and is otherwise untouched.
\<close>

lemma missing_context_raises:
  assumes "is_RewardMsg message = Some pid" and "map_of (reward_pending s) pid = None"
  shows "\<exists>e. QRouter_receiveServiceMsg message sender s
             = (Raised e, s\<lparr>printed := printed s @ [UnexpectedRewardMsg]\<rparr>)"
  using assms
  by (cases message)
     (simp_all add: QRouter_receiveServiceMsg_def SimpleQRouter_mkSample_def bind_def getitem_def
        split: option.split)

text \<open>
  Claim C1, at a failing input: node 1 of the example, nothing pending, receives a reward
  for package 7 from node 2. The line is printed and TypeError is raised (\<open>prev_state[0]\<close>
  on the integer 0); the Q-table is not changed.
\<close>

theorem missing_reward_context_is_fatal:
  "QRouter_receiveServiceMsg (SimpleRewardMsg 7 1 0 2) (ActorAddress 12) example_q =
     (Raised TypeError, example_q\<lparr>printed := [UnexpectedRewardMsg]\<rparr>)"
  by (simp add: QRouter_receiveServiceMsg_def SimpleQRouter_mkSample_def bind_def getitem_def
      example_q_eq)

subsection \<open>Flooding of link-state announcements\<close>

lemma example_ls_eq: "example_ls =
   \<lparr>overlord = Some (ActorAddress 100), addr = Some 1,
    network = [(0, ActorAddress 10), (1, ActorAddress 11), (2, ActorAddress 12)],
    network_inv = [(ActorAddress 10, 0), (ActorAddress 11, 1), (ActorAddress 12, 2)],
    neighbors = [(0, \<lparr>latency = 1, bandwidth = 10\<rparr>), (2, \<lparr>latency = 1, bandwidth = 10\<rparr>)],
    pkg_process_delay = 0, queue_time = 0,
    link_states = [(0, \<lparr>transfer_time = 0, alive = True\<rparr>), (2, \<lparr>transfer_time = 0, alive = True\<rparr>)],
    full_log = False, current_time = 0, event_queue = [], myAddress = ActorAddress 11,
    sent = [], printed = [], seq_num = 0, announcements = [], network_graph = []\<rparr>"
  by (simp add: example_ls_def Router_initialize_def LinkStateRouter_new_def keys_def
      example_neighbors_def example_network_def Let_def)

lemma broadcast_loop_sends:
  assumes "\<forall>n \<in> set ns. map_of (network s) n \<noteq> None"
  shows "broadcast_loop ns a sender s =
           (Returned (),
            s\<lparr>sent := sent s @ map (\<lambda>target. SendServiceMsg target a)
                                  (filter (\<lambda>target. target \<noteq> sender)
                                     (List.map_filter (map_of (network s)) ns))\<rparr>)"
  using assms
proof (induction ns arbitrary: s)
  case Nil
  then show ?case by (simp add: List.map_filter_simps)
next
  case (Cons n ns)
  then obtain target where t: "map_of (network s) n = Some target" by auto
  show ?case
  proof (cases "sender = target")
    case True
    with t Cons show ?thesis by (simp add: List.map_filter_simps)
  next
    case False
    let ?s = "s\<lparr>sent := sent s @ [SendServiceMsg target a]\<rparr>"
    have "\<forall>n \<in> set ns. map_of (network ?s) n \<noteq> None" using Cons.prems by simp
    from Cons.IH [OF this] t False show ?thesis by (simp add: List.map_filter_simps)
  qed
qed

text \<open>
  Claim C7. A link-state router whose neighbors are all in the topology receives an
  announcement. If its sequence number is newer than the last one seen from its origin,
  the announcement is recorded and applied to the graph, and it is sent once to the
  reference of every neighbor other than the sender, in the order of the neighbor table;
  the same announcement received again, from anyone, then changes nothing and is not sent
  again. If it is not newer, nothing changes and nothing is sent.
\<close>

theorem flooding_rule:
  assumes "\<forall>n \<in> set (keys (neighbors s)). map_of (network s) n \<noteq> None"
    and "msg = LinkStateAnnouncement seq origin snapshot"
  shows "(is_newer seq origin s \<longrightarrow>
            (\<exists>s'. LinkStateRouter_receiveServiceMsg msg sender s = (Returned (), s') \<and>
                  map_of (announcements s') origin = Some (seq, snapshot) \<and>
                  map_of (network_graph s') origin = Some snapshot \<and>
                  sent s' = sent s @ map (\<lambda>target. SendServiceMsg target msg)
                                       (filter (\<lambda>target. target \<noteq> sender) (neighbor_refs s)) \<and>
                  (\<forall>sender'. LinkStateRouter_receiveServiceMsg msg sender' s' = (Returned (), s')))) \<and>
         (\<not> is_newer seq origin s \<longrightarrow>
            LinkStateRouter_receiveServiceMsg msg sender s = (Returned (), s))"
proof (intro conjI impI)
  assume newer: "is_newer seq origin s"
  let ?s1 = "s\<lparr>announcements := AList.update origin (seq, snapshot) (announcements s),
               network_graph := AList.update origin snapshot (network_graph s)\<rparr>"
  let ?s' = "?s1\<lparr>sent := sent ?s1 @ map (\<lambda>target. SendServiceMsg target msg)
                                     (filter (\<lambda>target. target \<noteq> sender)
                                        (List.map_filter (map_of (network ?s1)) (keys (neighbors ?s1))))\<rparr>"
  have "\<forall>n \<in> set (keys (neighbors ?s1)). map_of (network ?s1) n \<noteq> None"
    using assms(1) by simp
  from broadcast_loop_sends [OF this, of msg sender]
  have b: "broadcastAnnouncement msg sender ?s1 = (Returned (), ?s')"
    by (simp add: broadcastAnnouncement_def)
  have r: "LinkStateRouter_receiveServiceMsg msg sender s = (Returned (), ?s')"
    using newer b assms(2)
    by (simp add: LinkStateRouter_receiveServiceMsg_def processLSAnnouncement_def bind_def)
  have old: "\<not> is_newer seq origin ?s'"
    by (simp add: is_newer_def update_conv')
  have again: "\<forall>sender'. LinkStateRouter_receiveServiceMsg msg sender' ?s' = (Returned (), ?s')"
    using old assms(2)
    by (simp add: LinkStateRouter_receiveServiceMsg_def processLSAnnouncement_def bind_def)
  show "\<exists>s'. LinkStateRouter_receiveServiceMsg msg sender s = (Returned (), s') \<and>
                  map_of (announcements s') origin = Some (seq, snapshot) \<and>
                  map_of (network_graph s') origin = Some snapshot \<and>
                  sent s' = sent s @ map (\<lambda>target. SendServiceMsg target msg)
                                       (filter (\<lambda>target. target \<noteq> sender) (neighbor_refs s)) \<and>
                  (\<forall>sender'. LinkStateRouter_receiveServiceMsg msg sender' s' = (Returned (), s'))"
    apply (rule exI [of _ ?s'])
    using r again by (simp add: update_conv' neighbor_refs_def)
next
  assume "\<not> is_newer seq origin s"
  then show "LinkStateRouter_receiveServiceMsg msg sender s = (Returned (), s)"
    using assms(2)
    by (simp add: LinkStateRouter_receiveServiceMsg_def processLSAnnouncement_def bind_def)
qed

text \<open>
  Node 1 of the example receives the first announcement of node 0 from node 0: it goes on
  to node 2 only; coming back from node 2 it is dropped.
\<close>

theorem flooding_rule_witness:
  "is_newer 0 0 example_ls \<and>
   LinkStateRouter_receiveServiceMsg example_lsa (ActorAddress 10) example_ls
     = (Returned (), example_ls_flooded) \<and>
   \<not> is_newer 0 0 example_ls_flooded \<and>
   LinkStateRouter_receiveServiceMsg example_lsa (ActorAddress 12) example_ls_flooded
     = (Returned (), example_ls_flooded)"
proof -
  have h1: "\<forall>n \<in> set (keys (neighbors example_ls)). map_of (network example_ls) n \<noteq> None"
    by (simp add: example_ls_eq keys_def)
  have h1': "\<forall>n \<in> set (keys (neighbors example_ls_flooded)). map_of (network example_ls_flooded) n \<noteq> None"
    by (simp add: example_ls_flooded_def example_ls_eq keys_def)
  have h2: "example_lsa = LinkStateAnnouncement 0 0 [(1, 1)]"
    by (simp add: example_lsa_def)
  have n1: "is_newer 0 0 example_ls"
    by (simp add: is_newer_def example_ls_eq)
  have n2: "\<not> is_newer 0 0 example_ls_flooded"
    by (simp add: is_newer_def example_ls_flooded_def example_ls_eq)
  have e: "LinkStateRouter_receiveServiceMsg example_lsa (ActorAddress 10) example_ls
     = (Returned (), example_ls_flooded)"
    by (simp add: LinkStateRouter_receiveServiceMsg_def processLSAnnouncement_def bind_def
        broadcastAnnouncement_def is_newer_def keys_def example_lsa_def example_ls_flooded_def
        example_ls_eq)
  show ?thesis
    using n1 n2 e flooding_rule [OF h1' h2, of "ActorAddress 12"] by simp
qed

subsection \<open>Breaking and restoring a link: the two loops\<close>

lemma lookup_Q_update_row:
  "map_of (Q s) n = Some row \<Longrightarrow>
   lookup_Q (s\<lparr>Q := AList.update n (AList.update v x row) (Q s)\<rparr>) m w =
     (if m = n \<and> w = v then Some x else lookup_Q s m w)"
  by (simp add: lookup_Q_def update_conv')

lemma breakLink_loop_ReturnedD:
  "breakLink_loop v ns acc s = (Returned stash, s') \<Longrightarrow> \<forall>n \<in> set ns. lookup_Q s n v \<noteq> None"
proof (induction ns arbitrary: acc s)
  case Nil
  then show ?case by simp
next
  case (Cons n ns)
  from Cons.prems obtain row q where row: "map_of (Q s) n = Some row" and q: "map_of row v = Some q"
    and rest: "breakLink_loop v ns (AList.update n q acc)
                 (s\<lparr>Q := AList.update n (AList.update v 100500 row) (Q s)\<rparr>) = (Returned stash, s')"
    by (auto split: option.splits)
  have "lookup_Q s m v \<noteq> None" if m: "m \<in> set ns" for m
  proof (cases "m = n")
    case True
    with row q show ?thesis by (simp add: lookup_Q_def)
  next
    case False
    from Cons.IH [OF rest] m
    have "lookup_Q (s\<lparr>Q := AList.update n (AList.update v 100500 row) (Q s)\<rparr>) m v \<noteq> None" by blast
    with False show ?thesis by (simp add: lookup_Q_update_row [OF row])
  qed
  with row q show ?case by (simp add: lookup_Q_def)
qed

lemma breakLink_loop_Returned:
  assumes "\<forall>n \<in> set ns. lookup_Q s n v \<noteq> None" and "distinct ns"
  shows "\<exists>stash q'. breakLink_loop v ns acc s = (Returned stash, s\<lparr>Q := q'\<rparr>) \<and>
           (\<forall>n. map_of stash n = (if n \<in> set ns then lookup_Q s n v else map_of acc n)) \<and>
           (\<forall>n w. lookup_Q (s\<lparr>Q := q'\<rparr>) n w =
                    (if n \<in> set ns \<and> w = v then Some 100500 else lookup_Q s n w)) \<and>
           dom (map_of q') = dom (map_of (Q s)) \<and>
           (distinct (map fst acc) \<longrightarrow> distinct (map fst stash)) \<and>
           fst ` set stash = fst ` set acc \<union> set ns"
  using assms
proof (induction ns arbitrary: acc s)
  case Nil
  have "s = s\<lparr>Q := Q s\<rparr>" by simp
  then show ?case
    by (intro exI [of _ acc] exI [of _ "Q s"]) simp
next
  case (Cons n ns)
  from Cons.prems obtain row q where row: "map_of (Q s) n = Some row" and q: "map_of row v = Some q"
    by (auto simp: lookup_Q_def split: option.splits)
  let ?s = "s\<lparr>Q := AList.update n (AList.update v 100500 row) (Q s)\<rparr>"
  have pre: "\<forall>m \<in> set ns. lookup_Q ?s m v \<noteq> None"
    using Cons.prems row by (simp add: lookup_Q_update_row)
  have d: "distinct ns" and nn: "n \<notin> set ns" using Cons.prems by simp_all
  from Cons.IH [OF pre d, of "AList.update n q acc"]
  obtain stash where "\<exists>q'. breakLink_loop v ns (AList.update n q acc) ?s = (Returned stash, ?s\<lparr>Q := q'\<rparr>) \<and>
           (\<forall>m. map_of stash m = (if m \<in> set ns then lookup_Q ?s m v else map_of (AList.update n q acc) m)) \<and>
           (\<forall>m w. lookup_Q (?s\<lparr>Q := q'\<rparr>) m w =
                    (if m \<in> set ns \<and> w = v then Some 100500 else lookup_Q ?s m w)) \<and>
           dom (map_of q') = dom (map_of (Q ?s)) \<and>
           (distinct (map fst (AList.update n q acc)) \<longrightarrow> distinct (map fst stash)) \<and>
           fst ` set stash = fst ` set (AList.update n q acc) \<union> set ns" ..
  then obtain q' where all: "breakLink_loop v ns (AList.update n q acc) ?s = (Returned stash, ?s\<lparr>Q := q'\<rparr>) \<and>
           (\<forall>m. map_of stash m = (if m \<in> set ns then lookup_Q ?s m v else map_of (AList.update n q acc) m)) \<and>
           (\<forall>m w. lookup_Q (?s\<lparr>Q := q'\<rparr>) m w =
                    (if m \<in> set ns \<and> w = v then Some 100500 else lookup_Q ?s m w)) \<and>
           dom (map_of q') = dom (map_of (Q ?s)) \<and>
           (distinct (map fst (AList.update n q acc)) \<longrightarrow> distinct (map fst stash)) \<and>
           fst ` set stash = fst ` set (AList.update n q acc) \<union> set ns" ..
  note r = all [THEN conjunct1]
  note st = all [THEN conjunct2, THEN conjunct1]
  note qq = all [THEN conjunct2, THEN conjunct2, THEN conjunct1]
  note dm = all [THEN conjunct2, THEN conjunct2, THEN conjunct2, THEN conjunct1]
  note ds = all [THEN conjunct2, THEN conjunct2, THEN conjunct2, THEN conjunct2, THEN conjunct1]
  note ks = all [THEN conjunct2, THEN conjunct2, THEN conjunct2, THEN conjunct2, THEN conjunct2]
  have s_eq: "?s\<lparr>Q := q'\<rparr> = s\<lparr>Q := q'\<rparr>" by simp
  have lr: "\<And>m w. lookup_Q ?s m w = (if m = n \<and> w = v then Some 100500 else lookup_Q s m w)"
    by (rule lookup_Q_update_row [OF row])
  have ln: "lookup_Q s n v = Some q" using row q by (simp add: lookup_Q_def)
  show ?case
  proof (intro exI [of _ stash] exI [of _ q'] conjI allI)
    show "breakLink_loop v (n # ns) acc s = (Returned stash, s\<lparr>Q := q'\<rparr>)"
      using r by (simp add: row q)
  next
    fix m
    show "map_of stash m = (if m \<in> set (n # ns) then lookup_Q s m v else map_of acc m)"
    proof (cases "m = n")
      case True
      with st [rule_format, of n] nn ln show ?thesis by (simp add: update_conv')
    next
      case False
      with st [rule_format, of m] show ?thesis by (simp add: update_conv' lr)
    qed
  next
    fix m w
    show "lookup_Q (s\<lparr>Q := q'\<rparr>) m w = (if m \<in> set (n # ns) \<and> w = v then Some 100500 else lookup_Q s m w)"
      using qq [rule_format, of m w] by (simp add: lr)
  next
    show "dom (map_of q') = dom (map_of (Q s))"
      using dm row by (simp add: update_conv' insert_absorb domI)
  next
    show "distinct (map fst acc) \<longrightarrow> distinct (map fst stash)"
      using ds by (simp add: distinct_update)
  next
    have "fst ` set (AList.update n q acc) = insert n (fst ` set acc)"
      using dom_map_of_conv_image_fst [of "AList.update n q acc"] dom_map_of_conv_image_fst [of acc]
      by (simp add: update_conv')
    with ks show "fst ` set stash = fst ` set acc \<union> set (n # ns)"
      by (simp add: Un_commute insert_commute)
  qed
qed

lemma restoreLink_loop_Returned:
  assumes "\<forall>n \<in> fst ` set st. map_of (Q s) n \<noteq> None" and "distinct (map fst st)"
  shows "\<exists>q'. restoreLink_loop v st s = (Returned (), s\<lparr>Q := q'\<rparr>) \<and>
           (\<forall>n w. lookup_Q (s\<lparr>Q := q'\<rparr>) n w =
                    (if n \<in> fst ` set st \<and> w = v then map_of st n else lookup_Q s n w)) \<and>
           dom (map_of q') = dom (map_of (Q s))"
  using assms
proof (induction st arbitrary: s)
  case Nil
  have "s = s\<lparr>Q := Q s\<rparr>" by simp
  then show ?case by (intro exI [of _ "Q s"]) simp
next
  case (Cons p st)
  obtain n val where p: "p = (n, val)" by (cases p)
  from Cons.prems p obtain row where row: "map_of (Q s) n = Some row" by auto
  let ?s = "s\<lparr>Q := AList.update n (AList.update v val row) (Q s)\<rparr>"
  have pre: "\<forall>m \<in> fst ` set st. map_of (Q ?s) m \<noteq> None"
    using Cons.prems by (auto simp: update_conv')
  have d: "distinct (map fst st)" and nn: "n \<notin> fst ` set st" using Cons.prems p by simp_all
  from Cons.IH [OF pre d]
  obtain q' where all: "restoreLink_loop v st ?s = (Returned (), ?s\<lparr>Q := q'\<rparr>) \<and>
           (\<forall>m w. lookup_Q (?s\<lparr>Q := q'\<rparr>) m w =
                    (if m \<in> fst ` set st \<and> w = v then map_of st m else lookup_Q ?s m w)) \<and>
           dom (map_of q') = dom (map_of (Q ?s))" ..
  note r = all [THEN conjunct1]
  note qq = all [THEN conjunct2, THEN conjunct1]
  note dm = all [THEN conjunct2, THEN conjunct2]
  have lr: "\<And>m w. lookup_Q ?s m w = (if m = n \<and> w = v then Some val else lookup_Q s m w)"
    by (rule lookup_Q_update_row [OF row])
  show ?case
  proof (intro exI [of _ q'] conjI allI)
    show "restoreLink_loop v (p # st) s = (Returned (), s\<lparr>Q := q'\<rparr>)"
      using r by (simp add: p row)
  next
    fix m w
    show "lookup_Q (s\<lparr>Q := q'\<rparr>) m w =
            (if m \<in> fst ` set (p # st) \<and> w = v then map_of (p # st) m else lookup_Q s m w)"
    proof (cases "m = n")
      case True
      with qq [rule_format, of n w] nn show ?thesis by (simp add: lr p)
    next
      case False
      with qq [rule_format, of m w] show ?thesis by (simp add: lr p)
    qed
  next
    show "dom (map_of q') = dom (map_of (Q s))"
      using dm row by (simp add: update_conv' insert_absorb domI)
  qed
qed

subsection \<open>What the other events keep\<close>

lemma stash_kept_refl: "stash_kept v s s"
  by (simp add: stash_kept_def)

lemma stash_kept_trans: "stash_kept v s s' \<Longrightarrow> stash_kept v s' s'' \<Longrightarrow> stash_kept v s s''"
  by (simp add: stash_kept_def)

lemma stash_kept_bind:
  assumes "stash_kept v s (snd (m s))" and "\<And>x s'. stash_kept v s' (snd (f x s'))"
  shows "stash_kept v s (snd (bind m f s))"
proof (cases rule: bind_cases [of m s f])
  case (1 e s')
  with assms(1) show ?thesis by simp
next
  case (2 x s')
  with assms(1) assms(2) [of s' x] show ?thesis by (auto intro: stash_kept_trans)
qed

lemma stash_kept_getitem: "stash_kept v s (snd (getitem d k s))"
  by (simp add: getitem_def stash_kept_refl split: option.split)

lemma breakLink_loop_frame:
  "\<exists>q'. snd (breakLink_loop w ns acc s) = s\<lparr>Q := q'\<rparr> \<and> dom (map_of q') = dom (map_of (Q s))"
proof (induction ns arbitrary: acc s)
  case Nil
  have "s = s\<lparr>Q := Q s\<rparr>" by simp
  then show ?case by (intro exI [of _ "Q s"]) simp
next
  case (Cons n ns)
  have triv: "\<exists>q'. s = s\<lparr>Q := q'\<rparr> \<and> dom (map_of q') = dom (map_of (Q s))"
    by (intro exI [of _ "Q s"]) simp
  show ?case
  proof (cases "map_of (Q s) n")
    case None
    with triv show ?thesis by simp
  next
    case (Some row)
    note row = this
    show ?thesis
    proof (cases "map_of row w")
      case None
      with row triv show ?thesis by simp
    next
      case (Some q)
      let ?s = "s\<lparr>Q := AList.update n (AList.update w 100500 row) (Q s)\<rparr>"
      from Cons.IH [of "AList.update n q acc" ?s]
      obtain q' where "snd (breakLink_loop w ns (AList.update n q acc) ?s) = ?s\<lparr>Q := q'\<rparr>"
        and "dom (map_of q') = dom (map_of (Q ?s))" by blast
      with row Some show ?thesis
        by (intro exI [of _ q']) (simp add: update_conv' insert_absorb domI)
    qed
  qed
qed

lemma restoreLink_loop_frame:
  "\<exists>q'. snd (restoreLink_loop w st s) = s\<lparr>Q := q'\<rparr> \<and> dom (map_of q') = dom (map_of (Q s))"
proof (induction st arbitrary: s)
  case Nil
  have "s = s\<lparr>Q := Q s\<rparr>" by simp
  then show ?case by (intro exI [of _ "Q s"]) simp
next
  case (Cons p st)
  obtain n val where p: "p = (n, val)" by (cases p)
  have triv: "\<exists>q'. s = s\<lparr>Q := q'\<rparr> \<and> dom (map_of q') = dom (map_of (Q s))"
    by (intro exI [of _ "Q s"]) simp
  show ?case
  proof (cases "map_of (Q s) n")
    case None
    with triv p show ?thesis by simp
  next
    case (Some row)
    let ?s = "s\<lparr>Q := AList.update n (AList.update w val row) (Q s)\<rparr>"
    from Cons.IH [of ?s]
    obtain q' where "snd (restoreLink_loop w st ?s) = ?s\<lparr>Q := q'\<rparr>"
      and "dom (map_of q') = dom (map_of (Q ?s))" by blast
    with Some p show ?thesis
      by (intro exI [of _ q']) (simp add: update_conv' insert_absorb domI)
  qed
qed

lemma stash_kept_breakLink:
  assumes "w \<noteq> v"
  shows "stash_kept v s (snd (SimpleQRouter_breakLink w s))"
proof -
  obtain q' where q': "snd (breakLink_loop w (keys (network s)) [] s) = s\<lparr>Q := q'\<rparr>"
    and dm: "dom (map_of q') = dom (map_of (Q s))"
    using breakLink_loop_frame [of w "keys (network s)" "[]" s] by blast
  obtain r where r: "breakLink_loop w (keys (network s)) [] s = (r, s\<lparr>Q := q'\<rparr>)"
    using q' by (cases "breakLink_loop w (keys (network s)) [] s") simp
  show ?thesis
    using r dm assms
    by (cases r) (simp_all add: SimpleQRouter_breakLink_def bind_def stash_kept_def update_conv')
qed

lemma stash_kept_restoreLink:
  assumes "w \<noteq> v"
  shows "stash_kept v s (snd (SimpleQRouter_restoreLink w s))"
proof (cases "map_of (broken_link_Qs s) w")
  case None
  then show ?thesis
    by (simp add: SimpleQRouter_restoreLink_def bind_def getitem_def stash_kept_refl)
next
  case (Some st)
  obtain q' where q': "snd (restoreLink_loop w st s) = s\<lparr>Q := q'\<rparr>"
    and dm: "dom (map_of q') = dom (map_of (Q s))"
    using restoreLink_loop_frame [of w st s] by blast
  obtain r where r: "restoreLink_loop w st s = (r, s\<lparr>Q := q'\<rparr>)"
    using q' by (cases "restoreLink_loop w st s") simp
  show ?thesis
    using r dm assms Some
    by (cases r)
       (simp_all add: SimpleQRouter_restoreLink_def bind_def getitem_def stash_kept_def delete_conv')
qed

lemma stash_kept_set_alive: "stash_kept v s (snd (set_alive n b s))"
  by (simp add: set_alive_def bind_def getitem_def stash_kept_def update_conv' insert_absorb domI
      split: option.split)

lemma stash_kept_forwardPackage: "stash_kept v s (snd (forwardPackage n pkg s))"
  by (simp add: forwardPackage_def bind_def getitem_def stash_kept_def update_conv' insert_absorb
      domI Let_def split: option.split)

lemma stash_kept_receivePackage:
  "stash_kept v s (snd (QRouter_receivePackage SimpleQRouter_mkRewardMsg ev s))"
  by (simp add: QRouter_receivePackage_def SimpleQRouter_mkRewardMsg_def bind_def getitem_def
      dict_min_def sendServiceMsg_def stash_kept_def Let_def split: option.split list.split)

lemma stash_kept_routePackage: "stash_kept v s (snd (QRouter_routePackage pkg s))"
  by (simp add: QRouter_routePackage_def SimpleQRouter_act_def bind_def getitem_def
      dict_min_def stash_kept_def Let_def split: option.split list.split)

lemma stash_kept_receiveServiceMsg: "stash_kept v s (snd (QRouter_receiveServiceMsg message sender s))"
  by (cases message)
     (simp_all add: QRouter_receiveServiceMsg_def SimpleQRouter_mkSample_def SimpleQRouter_observe_def
        bind_def getitem_def stash_kept_def update_conv' insert_absorb domI Let_def
        split: option.split prev_state.split)

lemma stash_kept_processEvent:
  assumes "ev \<noteq> LinkBreakMsg v" and "ev \<noteq> LinkRestoreMsg v"
  shows "stash_kept v s (snd (processEvent SimpleQRouter_strategy ev s))"
proof (cases "isInitialized SimpleQRouter_strategy s")
  case False
  then show ?thesis by (simp add: processEvent_def stash_kept_refl)
next
  case init: True
  show ?thesis
  proof (cases ev)
    case (IncomingPkgEvent t sender pkg)
    with init show ?thesis by (simp add: processEvent_def Let_def stash_kept_def)
  next
    case (ProcessPkgEvent t sender pkg0)
    have "stash_kept v s (snd (bind (receivePackage SimpleQRouter_strategy ev) (\<lambda>_ s1.
            let pkg = trace_package SimpleQRouter_strategy pkg0 s1;
                s2 = s1\<lparr>printed := printed s1 @ [RoutesPackage (addr s1) (dst pkg)]\<rparr>
            in if Some (dst pkg) = addr s2 then reportPkgDone pkg (current_time s2) s2
               else bind (routePackage SimpleQRouter_strategy pkg) (\<lambda>best_neighbor.
                      case best_neighbor of
                        None \<Rightarrow> (\<lambda>s3. (Raised KeyError, s3))
                      | Some bn \<Rightarrow>
                          bind (\<lambda>s3. getitem (link_states s3) bn s3) (\<lambda>ls.
                            if alive ls then forwardPackage bn pkg
                            else sendToBrokenLink SimpleQRouter_strategy pkg)) s2) s))"
    proof (rule stash_kept_bind)
      show "stash_kept v s (snd (receivePackage SimpleQRouter_strategy ev s))"
        by (simp add: SimpleQRouter_strategy_def stash_kept_receivePackage)
    next
      fix x :: unit and s1 :: "'a simple_q_router_scheme"
      define pkg where "pkg = trace_package SimpleQRouter_strategy pkg0 s1"
      define s2 where "s2 = s1\<lparr>printed := printed s1 @ [RoutesPackage (addr s1) (dst pkg)]\<rparr>"
      have a: "stash_kept v s1 s2" by (simp add: s2_def stash_kept_def)
      have b: "stash_kept v s2 (snd (reportPkgDone pkg (current_time s2) s2))"
        by (simp add: reportPkgDone_def stash_kept_def)
      have c: "stash_kept v s2 (snd (bind (routePackage SimpleQRouter_strategy pkg) (\<lambda>best_neighbor.
                      case best_neighbor of
                        None \<Rightarrow> (\<lambda>s3. (Raised KeyError, s3))
                      | Some bn \<Rightarrow>
                          bind (\<lambda>s3. getitem (link_states s3) bn s3) (\<lambda>ls.
                            if alive ls then forwardPackage bn pkg
                            else sendToBrokenLink SimpleQRouter_strategy pkg)) s2))"
      proof (rule stash_kept_bind)
        show "stash_kept v s2 (snd (routePackage SimpleQRouter_strategy pkg s2))"
          by (simp add: SimpleQRouter_strategy_def stash_kept_routePackage)
      next
        fix best :: "node_addr option" and s3 :: "'a simple_q_router_scheme"
        show "stash_kept v s3 (snd ((case best of
                        None \<Rightarrow> (\<lambda>s3. (Raised KeyError, s3))
                      | Some bn \<Rightarrow>
                          bind (\<lambda>s3. getitem (link_states s3) bn s3) (\<lambda>ls.
                            if alive ls then forwardPackage bn pkg
                            else sendToBrokenLink SimpleQRouter_strategy pkg)) s3))"
        proof (cases best)
          case None
          then show ?thesis by (simp add: stash_kept_refl)
        next
          case (Some bn)
          have "stash_kept v s3 (snd (bind (\<lambda>s3. getitem (link_states s3) bn s3) (\<lambda>ls.
                            if alive ls then forwardPackage bn pkg
                            else sendToBrokenLink SimpleQRouter_strategy pkg) s3))"
            by (rule stash_kept_bind)
               (simp_all add: stash_kept_getitem stash_kept_forwardPackage stash_kept_refl
                  SimpleQRouter_strategy_def)
          with Some show ?thesis by simp
        qed
      qed
      show "stash_kept v s1 (snd (let pkg = trace_package SimpleQRouter_strategy pkg0 s1;
                s2 = s1\<lparr>printed := printed s1 @ [RoutesPackage (addr s1) (dst pkg)]\<rparr>
            in if Some (dst pkg) = addr s2 then reportPkgDone pkg (current_time s2) s2
               else bind (routePackage SimpleQRouter_strategy pkg) (\<lambda>best_neighbor.
                      case best_neighbor of
                        None \<Rightarrow> (\<lambda>s3. (Raised KeyError, s3))
                      | Some bn \<Rightarrow>
                          bind (\<lambda>s3. getitem (link_states s3) bn s3) (\<lambda>ls.
                            if alive ls then forwardPackage bn pkg
                            else sendToBrokenLink SimpleQRouter_strategy pkg)) s2))"
        unfolding Let_def pkg_def [symmetric] s2_def [symmetric]
        using stash_kept_trans [OF a b] stash_kept_trans [OF a c]
        by (simp split: if_split)
    qed
    with init ProcessPkgEvent show ?thesis by (simp add: processEvent_def)
  next
    case (LinkBreakMsg w)
    with assms have "w \<noteq> v" by simp
    then have "stash_kept v s (snd (bind (set_alive w False) (\<lambda>_. breakLink SimpleQRouter_strategy w) s))"
      by (intro stash_kept_bind stash_kept_set_alive)
         (simp add: SimpleQRouter_strategy_def stash_kept_breakLink)
    with init LinkBreakMsg show ?thesis by (simp add: processEvent_def)
  next
    case (LinkRestoreMsg w)
    with assms have "w \<noteq> v" by simp
    then have "stash_kept v s (snd (bind (set_alive w True) (\<lambda>_. restoreLink SimpleQRouter_strategy w) s))"
      by (intro stash_kept_bind stash_kept_set_alive)
         (simp add: SimpleQRouter_strategy_def stash_kept_restoreLink)
    with init LinkRestoreMsg show ?thesis by (simp add: processEvent_def)
  next
    case OtherEvent
    with init show ?thesis by (simp add: processEvent_def stash_kept_refl)
  qed
qed

lemma stash_kept_receive:
  assumes "i \<noteq> Event (LinkBreakMsg v)" and "i \<noteq> Event (LinkRestoreMsg v)"
  shows "stash_kept v s (SimpleQRouter_receive i s)"
  using assms
  by (cases i) (simp_all add: stash_kept_processEvent stash_kept_receiveServiceMsg)

lemma stash_kept_fold:
  assumes "Event (LinkBreakMsg v) \<notin> set inputs" and "Event (LinkRestoreMsg v) \<notin> set inputs"
  shows "stash_kept v s (fold SimpleQRouter_receive inputs s)"
  using assms
proof (induction inputs arbitrary: s)
  case Nil
  then show ?case by (simp add: stash_kept_refl)
next
  case (Cons i inputs)
  then have "stash_kept v s (SimpleQRouter_receive i s)"
    by (intro stash_kept_receive) auto
  moreover have "stash_kept v (SimpleQRouter_receive i s) (fold SimpleQRouter_receive inputs (SimpleQRouter_receive i s))"
    using Cons by simp
  ultimately show ?case by (auto intro: stash_kept_trans)
qed

subsection \<open>Break and restore as events\<close>

lemma lookup_Q_dom: "lookup_Q s n w \<noteq> None \<Longrightarrow> n \<in> dom (map_of (Q s))"
  by (auto simp: lookup_Q_def split: option.splits)

lemma break_Returned:
  assumes init: "overlord s \<noteq> None"
    and link: "map_of (link_states s) v = Some ls"
    and rows: "\<forall>n \<in> set (keys (network s)). lookup_Q s n v \<noteq> None"
    and dist: "distinct (keys (network s))"
  shows "\<exists>s1 stash. processEvent SimpleQRouter_strategy (LinkBreakMsg v) s = (Returned (), s1) \<and>
           overlord s1 = overlord s \<and> network s1 = network s \<and>
           map_of (link_states s1) v = Some (ls\<lparr>alive := False\<rparr>) \<and>
           map_of (broken_link_Qs s1) v = Some stash \<and>
           (\<forall>n \<in> set (keys (network s)). map_of stash n = lookup_Q s n v) \<and>
           distinct (map fst stash) \<and> fst ` set stash = set (keys (network s)) \<and>
           (\<forall>n w. lookup_Q s1 n w =
                    (if n \<in> set (keys (network s)) \<and> w = v then Some 100500 else lookup_Q s n w)) \<and>
           dom (map_of (Q s1)) = dom (map_of (Q s))"
proof -
  let ?sa = "s\<lparr>link_states := AList.update v (ls\<lparr>alive := False\<rparr>) (link_states s)\<rparr>"
  have sa: "set_alive v False s = (Returned (), ?sa)"
    using link by (simp add: set_alive_def bind_def getitem_def)
  have rows': "\<forall>n \<in> set (keys (network ?sa)). lookup_Q ?sa n v \<noteq> None"
    using rows by (simp add: lookup_Q_def)
  have dist': "distinct (keys (network ?sa))" using dist by simp
  from breakLink_loop_Returned [OF rows' dist', of "[]"]
  obtain stash where "\<exists>q'. breakLink_loop v (keys (network ?sa)) [] ?sa = (Returned stash, ?sa\<lparr>Q := q'\<rparr>) \<and>
           (\<forall>n. map_of stash n = (if n \<in> set (keys (network ?sa)) then lookup_Q ?sa n v else map_of [] n)) \<and>
           (\<forall>n w. lookup_Q (?sa\<lparr>Q := q'\<rparr>) n w =
                    (if n \<in> set (keys (network ?sa)) \<and> w = v then Some 100500 else lookup_Q ?sa n w)) \<and>
           dom (map_of q') = dom (map_of (Q ?sa)) \<and>
           (distinct (map fst ([] :: (node_addr \<times> real) list)) \<longrightarrow> distinct (map fst stash)) \<and>
           fst ` set stash = fst ` set ([] :: (node_addr \<times> real) list) \<union> set (keys (network ?sa))" ..
  then obtain q' where all: "breakLink_loop v (keys (network ?sa)) [] ?sa = (Returned stash, ?sa\<lparr>Q := q'\<rparr>) \<and>
           (\<forall>n. map_of stash n = (if n \<in> set (keys (network ?sa)) then lookup_Q ?sa n v else map_of [] n)) \<and>
           (\<forall>n w. lookup_Q (?sa\<lparr>Q := q'\<rparr>) n w =
                    (if n \<in> set (keys (network ?sa)) \<and> w = v then Some 100500 else lookup_Q ?sa n w)) \<and>
           dom (map_of q') = dom (map_of (Q ?sa)) \<and>
           (distinct (map fst ([] :: (node_addr \<times> real) list)) \<longrightarrow> distinct (map fst stash)) \<and>
           fst ` set stash = fst ` set ([] :: (node_addr \<times> real) list) \<union> set (keys (network ?sa))" ..
  note r = all [THEN conjunct1]
  note st = all [THEN conjunct2, THEN conjunct1]
  note qq = all [THEN conjunct2, THEN conjunct2, THEN conjunct1]
  note dm = all [THEN conjunct2, THEN conjunct2, THEN conjunct2, THEN conjunct1]
  note ds = all [THEN conjunct2, THEN conjunct2, THEN conjunct2, THEN conjunct2, THEN conjunct1]
  note ks = all [THEN conjunct2, THEN conjunct2, THEN conjunct2, THEN conjunct2, THEN conjunct2]
  let ?s1 = "?sa\<lparr>Q := q', broken_link_Qs := AList.update v stash (broken_link_Qs ?sa)\<rparr>"
  have br: "SimpleQRouter_breakLink v ?sa = (Returned (), ?s1)"
    using r by (simp add: SimpleQRouter_breakLink_def bind_def)
  have pe: "processEvent SimpleQRouter_strategy (LinkBreakMsg v) s = (Returned (), ?s1)"
    using init sa br
    by (simp add: processEvent_def SimpleQRouter_strategy_def Router_isInitialized_def bind_def)
  have lq1: "\<And>n w. lookup_Q ?s1 n w = lookup_Q (?sa\<lparr>Q := q'\<rparr>) n w"
    by (simp add: lookup_Q_def)
  have lqa: "\<And>n w. lookup_Q ?sa n w = lookup_Q s n w"
    by (simp add: lookup_Q_def)
  show ?thesis
  proof (intro exI [of _ ?s1] exI [of _ stash] conjI)
    show "processEvent SimpleQRouter_strategy (LinkBreakMsg v) s = (Returned (), ?s1)" by (rule pe)
    show "overlord ?s1 = overlord s" by simp
    show "network ?s1 = network s" by simp
    show "map_of (link_states ?s1) v = Some (ls\<lparr>alive := False\<rparr>)" by (simp add: update_conv')
    show "map_of (broken_link_Qs ?s1) v = Some stash" by (simp add: update_conv')
    show "\<forall>n \<in> set (keys (network s)). map_of stash n = lookup_Q s n v"
      using st by (simp add: lookup_Q_def)
    show "distinct (map fst stash)" using ds by simp
    show "fst ` set stash = set (keys (network s))" using ks by simp
    show "\<forall>n w. lookup_Q ?s1 n w =
                    (if n \<in> set (keys (network s)) \<and> w = v then Some 100500 else lookup_Q s n w)"
      using qq by (simp add: lookup_Q_def)
    show "dom (map_of (Q ?s1)) = dom (map_of (Q s))" using dm by simp
  qed
qed

lemma break_ReturnedD:
  assumes "processEvent SimpleQRouter_strategy (LinkBreakMsg v) s = (Returned (), s1)"
  shows "overlord s \<noteq> None \<and> (\<exists>ls. map_of (link_states s) v = Some ls) \<and>
         (\<forall>n \<in> set (keys (network s)). lookup_Q s n v \<noteq> None)"
proof -
  have init: "overlord s \<noteq> None"
    using assms
    by (auto simp: processEvent_def SimpleQRouter_strategy_def Router_isInitialized_def split: if_splits)
  then have pe: "bind (set_alive v False) (\<lambda>_. SimpleQRouter_breakLink v) s = (Returned (), s1)"
    using assms
    by (simp add: processEvent_def SimpleQRouter_strategy_def Router_isInitialized_def)
  obtain ls where link: "map_of (link_states s) v = Some ls"
    using pe by (cases "map_of (link_states s) v") (simp_all add: set_alive_def bind_def getitem_def)
  let ?sa = "s\<lparr>link_states := AList.update v (ls\<lparr>alive := False\<rparr>) (link_states s)\<rparr>"
  have "SimpleQRouter_breakLink v ?sa = (Returned (), s1)"
    using pe link by (simp add: set_alive_def bind_def getitem_def)
  then obtain stash s' where "breakLink_loop v (keys (network ?sa)) [] ?sa = (Returned stash, s')"
    by (cases rule: bind_cases [of "breakLink_loop v (keys (network ?sa)) []" ?sa
          "\<lambda>broken_Qs s'. (Returned (), s'\<lparr>broken_link_Qs := AList.update v broken_Qs (broken_link_Qs s')\<rparr>)"])
       (simp_all add: SimpleQRouter_breakLink_def)
  from breakLink_loop_ReturnedD [OF this]
  have "\<forall>n \<in> set (keys (network s)). lookup_Q s n v \<noteq> None"
    by (simp add: lookup_Q_def)
  with init link show ?thesis by blast
qed

lemma restore_Returned:
  assumes init: "overlord s \<noteq> None"
    and link: "map_of (link_states s) v = Some ls"
    and stash: "map_of (broken_link_Qs s) v = Some stash"
    and dist: "distinct (map fst stash)"
    and rows: "\<forall>n \<in> fst ` set stash. map_of (Q s) n \<noteq> None"
  shows "\<exists>s3. processEvent SimpleQRouter_strategy (LinkRestoreMsg v) s = (Returned (), s3) \<and>
           (\<forall>n w. lookup_Q s3 n w =
                    (if n \<in> fst ` set stash \<and> w = v then map_of stash n else lookup_Q s n w)) \<and>
           map_of (broken_link_Qs s3) v = None \<and>
           map_of (link_states s3) v = Some (ls\<lparr>alive := True\<rparr>)"
proof -
  let ?sa = "s\<lparr>link_states := AList.update v (ls\<lparr>alive := True\<rparr>) (link_states s)\<rparr>"
  have sa: "set_alive v True s = (Returned (), ?sa)"
    using link by (simp add: set_alive_def bind_def getitem_def)
  have rows': "\<forall>n \<in> fst ` set stash. map_of (Q ?sa) n \<noteq> None" using rows by simp
  from restoreLink_loop_Returned [OF rows' dist, of v]
  obtain q' where all: "restoreLink_loop v stash ?sa = (Returned (), ?sa\<lparr>Q := q'\<rparr>) \<and>
           (\<forall>n w. lookup_Q (?sa\<lparr>Q := q'\<rparr>) n w =
                    (if n \<in> fst ` set stash \<and> w = v then map_of stash n else lookup_Q ?sa n w)) \<and>
           dom (map_of q') = dom (map_of (Q ?sa))" ..
  note r = all [THEN conjunct1]
  note qq = all [THEN conjunct2, THEN conjunct1]
  let ?s3 = "?sa\<lparr>Q := q', broken_link_Qs := AList.delete v (broken_link_Qs ?sa)\<rparr>"
  have rs: "SimpleQRouter_restoreLink v ?sa = (Returned (), ?s3)"
    using r stash by (simp add: SimpleQRouter_restoreLink_def bind_def getitem_def)
  have pe: "processEvent SimpleQRouter_strategy (LinkRestoreMsg v) s = (Returned (), ?s3)"
    using init sa rs
    by (simp add: processEvent_def SimpleQRouter_strategy_def Router_isInitialized_def bind_def)
  show ?thesis
  proof (intro exI [of _ ?s3] conjI)
    show "processEvent SimpleQRouter_strategy (LinkRestoreMsg v) s = (Returned (), ?s3)" by (rule pe)
    show "\<forall>n w. lookup_Q ?s3 n w =
                    (if n \<in> fst ` set stash \<and> w = v then map_of stash n else lookup_Q s n w)"
      using qq by (simp add: lookup_Q_def)
    show "map_of (broken_link_Qs ?s3) v = None" by (simp add: delete_conv')
    show "map_of (link_states ?s3) v = Some (ls\<lparr>alive := True\<rparr>)" by (simp add: update_conv')
  qed
qed


subsection \<open>The round trip of a break and a restore\<close>

text \<open>
  Claim C6. A SimpleQRouter handles LinkBreakMsg \<open>v\<close>, then any events and service
  messages (rewards among them) other than a break or a restore of \<open>v\<close>, each returning
  or raising, then LinkRestoreMsg \<open>v\<close>. The restore returns, and for every destination
  \<open>n\<close> of the topology \<open>Q[n][v]\<close>, which the break had set to 100500, is again what it
  was before the break; the stash of \<open>v\<close> is gone. The keys of the topology are distinct,
  as those of a dictionary are.
\<close>

theorem break_restore_round_trip:
  assumes dist: "distinct (keys (network s))"
    and brk: "processEvent SimpleQRouter_strategy (LinkBreakMsg v) s = (Returned (), s1)"
    and nb: "Event (LinkBreakMsg v) \<notin> set inputs"
    and nr: "Event (LinkRestoreMsg v) \<notin> set inputs"
    and s2: "s2 = fold SimpleQRouter_receive inputs s1"
  shows "\<exists>s3. processEvent SimpleQRouter_strategy (LinkRestoreMsg v) s2 = (Returned (), s3) \<and>
           (\<forall>n \<in> set (keys (network s)).
              lookup_Q s n v \<noteq> None \<and> lookup_Q s1 n v = Some 100500 \<and>
              lookup_Q s3 n v = lookup_Q s n v) \<and>
           map_of (broken_link_Qs s3) v = None"
proof -
  from break_ReturnedD [OF brk] obtain ls where
    init: "overlord s \<noteq> None" and link: "map_of (link_states s) v = Some ls"
    and rows: "\<forall>n \<in> set (keys (network s)). lookup_Q s n v \<noteq> None"
    by blast
  from break_Returned [OF init link rows dist] brk
  obtain stash where
    o1: "overlord s1 = overlord s"
    and l1: "map_of (link_states s1) v = Some (ls\<lparr>alive := False\<rparr>)"
    and b1: "map_of (broken_link_Qs s1) v = Some stash"
    and st: "\<forall>n \<in> set (keys (network s)). map_of stash n = lookup_Q s n v"
    and ds: "distinct (map fst stash)"
    and ks: "fst ` set stash = set (keys (network s))"
    and q1: "\<forall>n w. lookup_Q s1 n w =
                    (if n \<in> set (keys (network s)) \<and> w = v then Some 100500 else lookup_Q s n w)"
    and d1: "dom (map_of (Q s1)) = dom (map_of (Q s))"
    by auto
  have kept: "stash_kept v s1 s2"
    unfolding s2 by (rule stash_kept_fold [OF nb nr])
  have o2: "overlord s2 \<noteq> None" using kept o1 init by (simp add: stash_kept_def)
  have "v \<in> dom (map_of (link_states s2))"
    using kept l1 by (auto simp: stash_kept_def)
  then obtain ls2 where l2: "map_of (link_states s2) v = Some ls2" by blast
  have b2: "map_of (broken_link_Qs s2) v = Some stash"
    using kept b1 by (simp add: stash_kept_def)
  have d2: "dom (map_of (Q s2)) = dom (map_of (Q s))"
    using kept d1 by (simp add: stash_kept_def)
  have r2: "\<forall>n \<in> fst ` set stash. map_of (Q s2) n \<noteq> None"
  proof
    fix n assume "n \<in> fst ` set stash"
    with ks rows have "lookup_Q s n v \<noteq> None" by simp
    then have "n \<in> dom (map_of (Q s))" by (rule lookup_Q_dom)
    with d2 show "map_of (Q s2) n \<noteq> None" by auto
  qed
  from restore_Returned [OF o2 l2 b2 ds r2]
  obtain s3 where r: "processEvent SimpleQRouter_strategy (LinkRestoreMsg v) s2 = (Returned (), s3)"
    and q3: "\<forall>n w. lookup_Q s3 n w =
                    (if n \<in> fst ` set stash \<and> w = v then map_of stash n else lookup_Q s2 n w)"
    and b3: "map_of (broken_link_Qs s3) v = None"
    by blast
  show ?thesis
  proof (intro exI [of _ s3] conjI ballI)
    show "processEvent SimpleQRouter_strategy (LinkRestoreMsg v) s2 = (Returned (), s3)" by (rule r)
    show "map_of (broken_link_Qs s3) v = None" by (rule b3)
  next
    fix n assume n: "n \<in> set (keys (network s))"
    with rows show "lookup_Q s n v \<noteq> None" by simp
    from n q1 show "lookup_Q s1 n v = Some 100500" by simp
    from n q3 ks st show "lookup_Q s3 n v = lookup_Q s n v" by simp
  qed
qed

text \<open>
  Node 1 of the example, a package pending towards node 2: the link to node 2 breaks, a
  reward from node 2 moves \<open>Q[2][2]\<close> from the sentinel to 100501/2, the link is restored
  and \<open>Q[2][2]\<close> is 40 again.
\<close>

lemma example_routed_eq: "example_routed =
   \<lparr>overlord = Some (ActorAddress 100), addr = Some 1,
    network = [(0, ActorAddress 10), (1, ActorAddress 11), (2, ActorAddress 12)],
    network_inv = [(ActorAddress 10, 0), (ActorAddress 11, 1), (ActorAddress 12, 2)],
    neighbors = [(0, \<lparr>latency = 1, bandwidth = 10\<rparr>), (2, \<lparr>latency = 1, bandwidth = 10\<rparr>)],
    pkg_process_delay = 0, queue_time = 0,
    link_states = [(0, \<lparr>transfer_time = 0, alive = True\<rparr>), (2, \<lparr>transfer_time = 0, alive = True\<rparr>)],
    full_log = False, current_time = 0, event_queue = [], myAddress = ActorAddress 11,
    sent = [], printed = [], reward_pending = [(7, (0, 2))],
    Q = [(0, [(0, 40), (2, 100500)]), (1, [(0, 100500), (2, 100500)]), (2, [(0, 100500), (2, 40)])],
    learning_rate = Some (1/2), broken_link_Qs = [], steps = 0\<rparr>"
  by (simp add: example_routed_def example_q_eq)

lemma example_break:
  "processEvent SimpleQRouter_strategy (LinkBreakMsg 2) example_routed = (Returned (), example_broken)"
  by (simp add: processEvent_def SimpleQRouter_strategy_def Router_isInitialized_def bind_def
      set_alive_def getitem_def SimpleQRouter_breakLink_def keys_def example_broken_def
      example_routed_eq)

lemma example_reward_while_broken:
  "fold SimpleQRouter_receive example_inputs example_broken =
     example_broken\<lparr>Q := [(0, [(0, 40), (2, 100500)]), (1, [(0, 100500), (2, 100500)]),
                           (2, [(0, 100500), (2, 100501/2)])]\<rparr>"
  by (simp add: example_inputs_def QRouter_receiveServiceMsg_def SimpleQRouter_mkSample_def
      SimpleQRouter_observe_def bind_def getitem_def example_broken_def example_routed_eq)

theorem break_restore_round_trip_witness:
  "\<exists>s3. processEvent SimpleQRouter_strategy (LinkRestoreMsg 2)
           (fold SimpleQRouter_receive example_inputs example_broken) = (Returned (), s3) \<and>
        lookup_Q example_routed 2 2 = Some 40 \<and>
        lookup_Q example_broken 2 2 = Some 100500 \<and>
        lookup_Q (fold SimpleQRouter_receive example_inputs example_broken) 2 2 = Some (100501/2) \<and>
        lookup_Q s3 0 2 = Some 100500 \<and> lookup_Q s3 1 2 = Some 100500 \<and> lookup_Q s3 2 2 = Some 40 \<and>
        map_of (broken_link_Qs s3) 2 = None"
proof -
  have h1: "distinct (keys (network example_routed))"
    by (simp add: keys_def example_routed_eq)
  have h3: "Event (LinkBreakMsg 2) \<notin> set example_inputs"
    and h4: "Event (LinkRestoreMsg 2) \<notin> set example_inputs"
    by (simp_all add: example_inputs_def)
  have k: "set (keys (network example_routed)) = {0, 1, 2}"
    by (simp add: keys_def example_routed_eq)
  have q: "lookup_Q example_routed 0 2 = Some 100500" "lookup_Q example_routed 1 2 = Some 100500"
    "lookup_Q example_routed 2 2 = Some 40"
    by (simp_all add: lookup_Q_def example_routed_eq)
  have w: "lookup_Q (fold SimpleQRouter_receive example_inputs example_broken) 2 2 = Some (100501/2)"
    by (simp add: example_reward_while_broken lookup_Q_def)
  show ?thesis
    using break_restore_round_trip [OF h1 example_break h3 h4 refl] q w
    by (auto simp: k)
qed

subsection \<open>Restoring without a stash, breaking twice\<close>



end
